theory Spec2Isabelle
  imports Main "HOL-Library.Word" "HOL-Library.AList" "HOL-Library.Char_ord" "HOL-Library.List_Lexorder"
begin

section \<open>Strings, numbers and byte buffers of the runtime\<close>

text \<open>
  A JavaScript string is a sequence of code units; \<open>str.length\<close> counts them and
  \<open>str.charCodeAt n\<close> reads one.  The model uses \<open>string\<close> (a list of \<open>char\<close>), one
  \<open>char\<close> per code unit, so it covers the code units below 256 and in particular every
  ASCII string.  A \<open>Buffer\<close> is a list of bytes.  Integer-valued JavaScript numbers are
  \<open>nat\<close> or \<open>int\<close>; the numbers computed here (lengths, chunk counts, unix times) stay
  far below \<open>2 ^ 53\<close>, where the floating-point arithmetic of the runtime is exact, and
  the numbers read from the text of a token are checked against that bound.
\<close>

type_synonym byte = "8 word"
type_synonym buffer = "byte list"

definition hexdigit :: "nat \<Rightarrow> char" where
  "hexdigit d = ''0123456789abcdef'' ! d"

text \<open>\<open>Number(n).toString(16)\<close> for a non-negative integer: lower case, no leading zero,
  \<open>"0"\<close> for zero.\<close>

fun toString16 :: "nat \<Rightarrow> string" where
  "toString16 n = (if n < 16 then [hexdigit n] else toString16 (n div 16) @ [hexdigit (n mod 16)])"

declare toString16.simps [simp del]

text \<open>\<open>String(n)\<close> (template-literal interpolation) for a non-negative integer.\<close>

fun toString10 :: "nat \<Rightarrow> string" where
  "toString10 n = (if n < 10 then [hexdigit n] else toString10 (n div 10) @ [hexdigit (n mod 10)])"

declare toString10.simps [simp del]

text \<open>\<open>str.split(sep)\<close> for a non-empty separator: \<open>cur\<close> is the piece being read,
  \<open>skip\<close> counts the code units of a separator just matched that are still to be passed.\<close>

fun split_go :: "string \<Rightarrow> string \<Rightarrow> nat \<Rightarrow> string \<Rightarrow> string list" where
  "split_go sep cur skip [] = [cur]"
| "split_go sep cur skip (c # cs) =
     (if 0 < skip then split_go sep cur (skip - 1) cs
      else if take (length sep) (c # cs) = sep then cur # split_go sep [] (length sep - 1) cs
      else split_go sep (cur @ [c]) 0 cs)"

definition split_js :: "string \<Rightarrow> string \<Rightarrow> string list" where
  "split_js sep s = (if sep = [] then map (\<lambda>c. [c]) s else split_go sep [] 0 s)"

text \<open>\<open>arr[i]\<close> as a truthy test and read: an absent element and the empty string are
  both falsy.\<close>

definition nth_truthy :: "string list \<Rightarrow> nat \<Rightarrow> string option" where
  "nth_truthy arr i = (if i < length arr \<and> arr ! i \<noteq> [] then Some (arr ! i) else None)"

text \<open>\<open>Buffer.from(s, 'hex')\<close>: two hex digits (either case) per byte; decoding stops at
  the first pair that is not hex, and a trailing single digit is dropped.\<close>

definition hexval :: "char \<Rightarrow> nat option" where
  "hexval c =
     (let n = (of_char c :: nat) in
      if 48 \<le> n \<and> n \<le> 57 then Some (n - 48)
      else if 97 \<le> n \<and> n \<le> 102 then Some (n - 87)
      else if 65 \<le> n \<and> n \<le> 70 then Some (n - 55)
      else None)"

fun from_hex :: "string \<Rightarrow> buffer" where
  "from_hex (a # b # cs) =
     (case (hexval a, hexval b) of
        (Some h, Some l) \<Rightarrow> of_nat (h * 16 + l) # from_hex cs
      | _ \<Rightarrow> [])"
| "from_hex _ = []"

text \<open>\<open>buf.toString('hex')\<close>: two lower-case digits per byte.\<close>

definition to_hex :: "buffer \<Rightarrow> string" where
  "to_hex buf = concat (map (\<lambda>b. [hexdigit (unat b div 16), hexdigit (unat b mod 16)]) buf)"

text \<open>\<open>Buffer.from(s, 'utf-8')\<close> on code units below 256: one byte below 128, two bytes
  from 128 on.\<close>

definition utf8 :: "string \<Rightarrow> buffer" where
  "utf8 s = concat (map (\<lambda>c. let n = (of_char c :: nat) in
                if n < 128 then [of_nat n] else [of_nat (192 + n div 64), of_nat (128 + n mod 64)]) s)"

text \<open>\<open>parseInt(str)\<close> without a radix: leading white space is skipped, a sign and a
  \<open>0x\<close> prefix are read, then the longest run of digits; \<open>None\<close> is \<open>NaN\<close>.\<close>

definition is_ws :: "char \<Rightarrow> bool" where
  "is_ws c = ((of_char c :: nat) \<in> {9, 10, 11, 12, 13, 32, 160})"

definition digitval :: "nat \<Rightarrow> char \<Rightarrow> nat option" where
  "digitval radix c = (case hexval c of Some d \<Rightarrow> if d < radix then Some d else None | None \<Rightarrow> None)"

fun digit_run :: "nat \<Rightarrow> string \<Rightarrow> nat list" where
  "digit_run radix [] = []"
| "digit_run radix (c # cs) = (case digitval radix c of Some d \<Rightarrow> d # digit_run radix cs | None \<Rightarrow> [])"

definition parseInt :: "string \<Rightarrow> int option" where
  "parseInt str =
     (let s1 = dropWhile is_ws str;
          neg = (take 1 s1 = ''-'');
          s2 = (if take 1 s1 = ''-'' \<or> take 1 s1 = ''+'' then drop 1 s1 else s1);
          hex = (take 2 s2 = ''0x'' \<or> take 2 s2 = ''0X'');
          radix = (if hex then 16 else 10);
          ds = digit_run radix (if hex then drop 2 s2 else s2)
      in if ds = [] then None
         else Some ((if neg then - 1 else 1) * int (foldl (\<lambda>a d. a * radix + d) 0 ds)))"

section \<open>ASCII wrappers of the signing engine\<close>

text \<open>
  \<^verbatim>\<open>
  function ascii_to_hexa(str) {
    const arr1 = <string[]>[]
    for (let n = 0, l = str.length; n < l; n++) {
      const hex = Number(str.charCodeAt(n)).toString(16)
      arr1.push(hex)
    }
    return arr1.join('')
  }
  \<close>
  The loop pushes one piece per code unit and \<open>join('')\<close> concatenates them.
\<close>

fun ascii_to_hexa_loop :: "string \<Rightarrow> string list \<Rightarrow> string list" where
  "ascii_to_hexa_loop [] arr1 = arr1"
| "ascii_to_hexa_loop (c # cs) arr1 = ascii_to_hexa_loop cs (arr1 @ [toString16 (of_char c)])"

definition ascii_to_hexa :: "string \<Rightarrow> string" where
  "ascii_to_hexa str = concat (ascii_to_hexa_loop str [])"

section \<open>Text encodings of the runtime used by the token codec\<close>

text \<open>\<open>Buffer.from(s, 'ascii')\<close> keeps the low byte of every code unit;
  \<open>buf.toString('ascii')\<close> clears the top bit of every byte.\<close>

definition from_ascii :: "string \<Rightarrow> buffer" where
  "from_ascii s = map (\<lambda>c. of_nat (of_char c)) s"

definition to_ascii :: "buffer \<Rightarrow> string" where
  "to_ascii buf = map (\<lambda>b. char_of (unat b mod 128)) buf"

text \<open>\<open>buf.toString('base64')\<close>: three bytes give four characters of the standard alphabet;
  a last group of one or two bytes is padded with \<open>=\<close>.\<close>

definition b64char :: "nat \<Rightarrow> char" where
  "b64char v = ''ABCDEFGHIJKLMNOPQRSTUVWXYZabcdefghijklmnopqrstuvwxyz0123456789+/'' ! v"

fun to_base64 :: "buffer \<Rightarrow> string" where
  "to_base64 (a # b # c # rest) =
     [b64char (unat a div 4), b64char ((unat a mod 4) * 16 + unat b div 16),
      b64char ((unat b mod 16) * 4 + unat c div 64), b64char (unat c mod 64)] @ to_base64 rest"
| "to_base64 [a, b] =
     [b64char (unat a div 4), b64char ((unat a mod 4) * 16 + unat b div 16),
      b64char ((unat b mod 16) * 4), CHR ''='']"
| "to_base64 [a] = [b64char (unat a div 4), b64char ((unat a mod 4) * 16), CHR ''='', CHR ''='']"
| "to_base64 [] = []"

text \<open>\<open>Buffer.from(s, 'base64')\<close> reads the standard and the URL-safe alphabet alike, passes
  over any other character and stops at the first \<open>=\<close>; four characters give three
  bytes, and a last group of two or three characters gives one or two bytes.\<close>

definition unbase64 :: "char \<Rightarrow> nat option" where
  "unbase64 c =
     (let n = (of_char c :: nat) in
      if 65 \<le> n \<and> n \<le> 90 then Some (n - 65)
      else if 97 \<le> n \<and> n \<le> 122 then Some (n - 71)
      else if 48 \<le> n \<and> n \<le> 57 then Some (n + 4)
      else if c = CHR ''+'' \<or> c = CHR ''-'' then Some 62
      else if c = CHR ''/'' \<or> c = CHR ''_'' then Some 63
      else None)"

fun base64_values :: "string \<Rightarrow> nat list" where
  "base64_values [] = []"
| "base64_values (c # cs) =
     (case unbase64 c of
        Some v \<Rightarrow> v # base64_values cs
      | None \<Rightarrow> if c = CHR ''='' then [] else base64_values cs)"

fun base64_bytes :: "nat list \<Rightarrow> buffer" where
  "base64_bytes (a # b # c # d # rest) =
     [of_nat (a * 4 + b div 16), of_nat ((b mod 16) * 16 + c div 4), of_nat ((c mod 4) * 64 + d)]
     @ base64_bytes rest"
| "base64_bytes [a, b, c] = [of_nat (a * 4 + b div 16), of_nat ((b mod 16) * 16 + c div 4)]"
| "base64_bytes [a, b] = [of_nat (a * 4 + b div 16)]"
| "base64_bytes _ = []"

definition from_base64 :: "string \<Rightarrow> buffer" where
  "from_base64 s = base64_bytes (base64_values s)"

text \<open>\<open>encodeURIComponent\<close>: letters, digits and \<open>- _ . ! ~ * ' ( )\<close> stay, every other code
  unit is written as the bytes of its UTF-8 form, each as \<open>%\<close> and two upper-case hex
  digits.\<close>

definition unreserved :: "char \<Rightarrow> bool" where
  "unreserved c =
     (let n = (of_char c :: nat) in
      (65 \<le> n \<and> n \<le> 90) \<or> (97 \<le> n \<and> n \<le> 122) \<or> (48 \<le> n \<and> n \<le> 57)
      \<or> n \<in> {45, 95, 46, 33, 126, 42, 39, 40, 41})"

definition HEXDIGIT :: "nat \<Rightarrow> char" where
  "HEXDIGIT d = ''0123456789ABCDEF'' ! d"

definition percent :: "byte \<Rightarrow> string" where
  "percent b = [CHR ''%'', HEXDIGIT (unat b div 16), HEXDIGIT (unat b mod 16)]"

definition encodeURIComponent :: "string \<Rightarrow> string" where
  "encodeURIComponent s = concat (map (\<lambda>c. if unreserved c then [c] else concat (map percent (utf8 [c]))) s)"

text \<open>What a library function or a piece of the codec does: it returns a value or it
  throws.  \<open>Not_modelled\<close> marks the inputs on which the model says nothing: an escape
  sequence that stands for a code point from 256 on, which is no \<open>char\<close>, and a JSON text
  with an escape or a quote inside a string.\<close>

datatype 'a js_result = Returns 'a | Throws string | Not_modelled

fun js_bind :: "'a js_result \<Rightarrow> ('a \<Rightarrow> 'b js_result) \<Rightarrow> 'b js_result" where
  "js_bind (Returns x) f = f x"
| "js_bind (Throws m) f = Throws m"
| "js_bind Not_modelled f = Not_modelled"

text \<open>The number \<open>parseInt\<close> returns is the double nearest to the integer that the digits
  denote.  Up to \<open>2 ^ 53\<close> in magnitude the two are the same; of a longer run of digits,
  which the runtime rounds, the model says nothing.\<close>

definition exact_integer :: "int \<Rightarrow> bool" where
  "exact_integer n = (\<bar>n\<bar> \<le> 2 ^ 53)"

definition number_of :: "int option \<Rightarrow> int option js_result" where
  "number_of r =
     (case r of
        None \<Rightarrow> Returns None
      | Some n \<Rightarrow> if exact_integer n then Returns (Some n) else Not_modelled)"

text \<open>\<open>decodeURIComponent\<close>: \<open>%\<close> must be followed by two hex digits; a byte below 128 is the
  code unit itself, a byte \<open>C2\<close> or \<open>C3\<close> followed by an escaped continuation byte is a
  code unit from 128 to 255.\<close>

definition escaped_byte :: "string \<Rightarrow> (nat \<times> string) option" where
  "escaped_byte s =
     (case s of
        p # a # b # rest \<Rightarrow>
          (if p = CHR ''%'' then
             (case (hexval a, hexval b) of (Some h, Some l) \<Rightarrow> Some (h * 16 + l, rest) | _ \<Rightarrow> None)
           else None)
      | _ \<Rightarrow> None)"

function decodeURIComponent :: "string \<Rightarrow> string js_result" where
  "decodeURIComponent [] = Returns []"
| "decodeURIComponent (c # cs) =
     (if c \<noteq> CHR ''%'' then js_bind (decodeURIComponent cs) (\<lambda>r. Returns (c # r))
      else
        (case escaped_byte (c # cs) of
           None \<Rightarrow> Throws ''URIError''
         | Some (b, rest) \<Rightarrow>
             if b < 128 then js_bind (decodeURIComponent rest) (\<lambda>r. Returns (char_of b # r))
             else if b = 194 \<or> b = 195 then
               (case escaped_byte rest of
                  None \<Rightarrow> Throws ''URIError''
                | Some (b2, rest2) \<Rightarrow>
                    if 128 \<le> b2 \<and> b2 < 192
                    then js_bind (decodeURIComponent rest2)
                           (\<lambda>r. Returns (char_of ((b - 192) * 64 + (b2 - 128)) # r))
                    else Throws ''URIError'')
             else if 196 \<le> b \<and> b < 245 then Not_modelled
             else Throws ''URIError''))"
  by pat_completeness auto
termination
  by (relation "measure length") (auto simp add: escaped_byte_def split: list.splits if_splits option.splits)

section \<open>Token codec (LDAT)\<close>

text \<open>A metadata value is a number or a string; a metadata object is the list of its own
  properties in the order in which they were first assigned.  \<open>Num n\<close> is the number \<open>n\<close>
  for an integer \<open>n\<close> with \<open>exact_integer n\<close>, where \<open>String(n)\<close> is the decimal numeral
  of \<open>n\<close>; fractions and larger numbers are not modelled.  Objects are compared as maps;
  the order in which the runtime enumerates keys that look like integers is not
  modelled.\<close>

datatype js_value = Num int | Str string

type_synonym js_object = "(string \<times> js_value) list"

text \<open>\<open>String(v)\<close> for a metadata value.\<close>

definition string_of_int :: "int \<Rightarrow> string" where
  "string_of_int n = (if n < 0 then ''-'' @ toString10 (nat (- n)) else toString10 (nat n))"

definition string_of_value :: "js_value \<Rightarrow> string" where
  "string_of_value v = (case v of Num n \<Rightarrow> string_of_int n | Str s \<Rightarrow> s)"

text \<open>\<open>arr.join(sep)\<close>.\<close>

fun join :: "string \<Rightarrow> string list \<Rightarrow> string" where
  "join sep [] = []"
| "join sep [x] = x"
| "join sep (x # y # ys) = x @ sep @ join sep (y # ys)"

text \<open>
  \<^verbatim>\<open>
  function serializeMeta(obj) {
    const str: string[] = []
    for (const p in obj) {
      if (Object.prototype.hasOwnProperty.call(obj, p)) {
        str.push(encodeURIComponent(p) + '=' + encodeURIComponent(obj[p]))
      }
    }
    str.sort((a, b) => (a > b ? 1 : -1))
    return str.join('&')
  }
  \<close>
  The pieces differ from one another when the keys do, so the sort puts them in
  ascending order of their code units.
\<close>

definition serializeMeta :: "js_object \<Rightarrow> string" where
  "serializeMeta obj =
     join ''&'' (sort (map (\<lambda>(p, v). encodeURIComponent p @ ''='' @ encodeURIComponent (string_of_value v)) obj))"

text \<open>
  \<^verbatim>\<open>
  function deserializeMeta(str) {
    const json = str && str.length > 2
      ? JSON.parse('{"' + str.replace(/&/g, '","').replace(/=/g, '":"') + '"}',
          function (key, value) { return key === '' ? value : decodeURIComponent(value) })
      : {}
    const ret = {}
    for (const [k, v] of Object.entries(json)) {
      const value = (typeof v === 'string' && parseInt(v)) || v
      ret[k] = value
    }
    return ret
  }
  \<close>
  The text handed to \<open>JSON.parse\<close> puts every piece between \<open>&\<close> in quotes, with \<open>":"\<close> for
  each \<open>=\<close>.  When \<open>str\<close> has no quote, no backslash and no control character, that text
  is an object of strings exactly when every piece has one \<open>=\<close>, and a key that comes
  twice keeps its last value; otherwise \<open>JSON.parse\<close> throws.  The reviver leaves the
  value of the empty key as it is.
\<close>

definition json_plain :: "string \<Rightarrow> bool" where
  "json_plain str = list_all (\<lambda>c. c \<noteq> CHR 0x22 \<and> c \<noteq> CHR 0x5C \<and> 32 \<le> (of_char c :: nat)) str"

definition json_pairs :: "string \<Rightarrow> (string \<times> string) list js_result" where
  "json_pairs str =
     (if \<not> json_plain str then Not_modelled
      else
        let pieces = map (split_js ''='') (split_js ''&'' str) in
        if list_all (\<lambda>kv. length kv = 2) pieces
        then Returns (foldl (\<lambda>obj kv. AList.update (kv ! 0) (kv ! 1) obj) [] pieces)
        else Throws ''SyntaxError'')"

fun revive :: "(string \<times> string) list \<Rightarrow> (string \<times> string) list js_result" where
  "revive [] = Returns []"
| "revive ((key, v) # kvs) =
     js_bind (if key = [] then Returns v else decodeURIComponent v)
       (\<lambda>v'. js_bind (revive kvs) (\<lambda>rest. Returns ((key, v') # rest)))"

text \<open>The loop over \<open>Object.entries(json)\<close>.  \<open>(typeof v === 'string' && parseInt(v)) || v\<close>
  is the number read when there is one other than zero, and the string otherwise.  The
  assignment \<open>ret[k] = value\<close> adds or replaces a property, except for the key
  \<open>__proto__\<close>: that one reaches the setter of \<open>Object.prototype\<close>, which passes over a
  value that is a number or a string, so no property is made.\<close>

definition coerce :: "string \<Rightarrow> js_value js_result" where
  "coerce v =
     js_bind (number_of (parseInt v))
       (\<lambda>r. Returns (case r of None \<Rightarrow> Str v | Some n \<Rightarrow> if n = 0 then Str v else Num n))"

definition assign :: "js_object \<Rightarrow> string \<Rightarrow> js_value \<Rightarrow> js_object" where
  "assign ret k v = (if k = ''__proto__'' then ret else AList.update k v ret)"

fun entries_loop :: "(string \<times> string) list \<Rightarrow> js_object \<Rightarrow> js_object js_result" where
  "entries_loop [] ret = Returns ret"
| "entries_loop ((k, v) # kvs) ret = js_bind (coerce v) (\<lambda>value. entries_loop kvs (assign ret k value))"

definition deserializeMeta :: "string \<Rightarrow> js_object js_result" where
  "deserializeMeta str =
     js_bind (if 2 < length str then js_bind (json_pairs str) revive else Returns [])
       (\<lambda>json. entries_loop json [])"

text \<open>\<open>str.replace(/a/g, b)\<close> for single characters, and
  \<open>buf.toString('base64').replace(/\//g, '_').replace(/\+/g, '-')\<close>.\<close>

definition replace_all :: "char \<Rightarrow> char \<Rightarrow> string \<Rightarrow> string" where
  "replace_all a b s = map (\<lambda>c. if c = a then b else c) s"

definition urlBase64 :: "buffer \<Rightarrow> string" where
  "urlBase64 buf = replace_all (CHR ''+'') (CHR ''-'') (replace_all (CHR ''/'') (CHR ''_'') (to_base64 buf))"

text \<open>What the two replacements make of one character.\<close>

definition urlchar :: "char \<Rightarrow> char" where
  "urlchar c = (if c = CHR ''/'' then CHR ''_'' else if c = CHR ''+'' then CHR ''-'' else c)"

definition urlBase64FromBytes :: "buffer \<Rightarrow> string" where
  "urlBase64FromBytes buf = urlBase64 buf"

text \<open>\<open>startLDAT(host, muid, pk, exp, meta)\<close>: the five fields \<open>host.muid.pk.exp.meta\<close> and the
  bytes that are signed.\<close>

record ldat =
  terms :: string
  bytes :: buffer

definition startLDAT :: "string \<Rightarrow> string \<Rightarrow> string \<Rightarrow> nat \<Rightarrow> js_object \<Rightarrow> ldat" where
  "startLDAT host muid pk exp meta =
     (let hostBuf = from_ascii host;
          muidBuf = from_base64 muid;
          pkBuf = (if pk \<noteq> [] then from_base64 pk else []);
          expBuf = (if exp \<noteq> 0 then from_hex (toString16 exp) else []);
          metaBuf = from_ascii (serializeMeta meta)
      in \<lparr>terms = urlBase64 hostBuf @ ''.'' @ urlBase64 muidBuf @ ''.'' @ urlBase64 pkBuf @ ''.''
                   @ urlBase64 expBuf @ ''.'' @ urlBase64 metaBuf,
          bytes = concat [hostBuf, muidBuf, pkBuf, expBuf, metaBuf]\<rparr>)"


text \<open>The decoders of \<open>termKeys\<close> for \<open>ts\<close> and \<open>meta\<close>:
  \<^verbatim>\<open>
  func: (buf) => parseInt('0x' + buf.toString('hex'))
  func: (buf) => { const ascii = buf.toString('ascii')
                   return ascii ? deserializeMeta(ascii) : {} }
  \<close>\<close>

definition parse_ts :: "buffer \<Rightarrow> int option js_result" where
  "parse_ts buf = number_of (parseInt (''0x'' @ to_hex buf))"

definition parse_meta :: "buffer \<Rightarrow> js_object js_result" where
  "parse_meta buf = (let ascii = to_ascii buf in if ascii \<noteq> [] then deserializeMeta ascii else Returns [])"

text \<open>
  \<^verbatim>\<open>
  function parseLDAT(ldat): LdatTerms {
    const a = ldat.split('.')
    const o: { [k: string]: any } = {}
    termKeys.forEach((t, i) => {
      if (a[i]) o[t.key] = t.func(Buffer.from(a[i], 'base64'))
    })
    return o as LdatTerms
  }
  \<close>
  Of the six decoders only those of \<open>ts\<close> and \<open>meta\<close> can fail.
\<close>

definition decode_field :: "string list \<Rightarrow> nat \<Rightarrow> (buffer \<Rightarrow> 'a js_result) \<Rightarrow> 'a option js_result" where
  "decode_field a i func =
     (case nth_truthy a i of
        None \<Rightarrow> Returns None
      | Some x \<Rightarrow> js_bind (func (from_base64 x)) (\<lambda>v. Returns (Some v)))"


text \<open>Strings of lower-case hex digits, and strings of code units below 128.\<close>

definition lower_hex :: "string \<Rightarrow> bool" where
  "lower_hex s = list_all (\<lambda>c. c \<in> set ''0123456789abcdef'') s"

definition is_ascii :: "string \<Rightarrow> bool" where
  "is_ascii s = list_all (\<lambda>c. (of_char c :: nat) < 128) s"



section \<open>Backend client cache\<close>

text \<open>
  What a promise is rejected with, or what a \<open>throw\<close> carries: a string or the message of
  an \<open>Error\<close> (\<open>Msg\<close>), the \<open>err\<close> argument of an RPC callback, which may be null
  (\<open>Upstream\<close>), or a value taken from a payment reply.
\<close>

record payment_update =
  status :: string
  state :: string
  payment_error :: string
  failure_reason :: string

datatype rejection =
    Msg string
  | Upstream "string option"
  | Payment_error string
  | Failure_reason string
  | Failed_payment payment_update

datatype client = Proxy_Lightning string | Greenlight_Node string | Lnd_Lightning string

record send_response =
  sr_payment_error :: string
  sr_payment_preimage :: buffer
  sr_payment_hash :: buffer

datatype response = Send_response send_response | Payment payment_update

datatype stream_event = Data payment_update | Stream_error string

record KeysendOpts =
  amt :: int
  dest :: string
  data :: "string option"
  route_hint :: "string option"
  extra_tlv :: "(string \<times> string) list option"

record KeysendRequest =
  req_amt :: int
  req_final_cltv_delta :: int
  req_dest :: buffer
  req_dest_custom_records :: "(string \<times> buffer) list"
  req_payment_hash :: buffer
  req_dest_features :: "nat list"
  req_route_hints :: "(string \<times> string) list list option"
  req_fee_limit :: "int option"
  req_fee_limit_sat :: "int option"
  req_timeout_seconds :: "int option"

record VerifyResponse =
  valid :: bool
  pubkey :: string

text \<open>
  The configuration, the helper modules that are imported by \<open>lightning.ts\<close> and the
  remote nodes are parameters of the model.  An RPC callback receives \<open>(err, response)\<close>,
  either of which may be null; \<open>None\<close> for the whole reply means the callback is never
  invoked.  The first argument of the remote calls is the number of effects performed so
  far, so that two identical requests can be answered differently.
\<close>

record env =
  isProxy :: "client option \<Rightarrow> bool"
  lightning_provider :: string
  loadProxyLightning :: "string \<Rightarrow> rejection + client option"
  read_greenlight_credentials :: "rejection + string"
  get_greenlight_grpc_uri :: string
  read_lnd_credentials :: "string option \<Rightarrow> string option"
  lnd_address :: string
  min_sat_amount :: int
  final_cltv_delta :: int
  randomBytes :: "nat \<Rightarrow> nat \<Rightarrow> buffer"
  sha256 :: "buffer \<Rightarrow> buffer"
  sendPaymentSync :: "nat \<Rightarrow> KeysendRequest \<Rightarrow> (string option \<times> send_response option) option"
  greenlight_keysend :: "nat \<Rightarrow> KeysendRequest \<Rightarrow> (string option \<times> send_response option) option"
  sendPaymentV2 :: "nat \<Rightarrow> KeysendRequest \<Rightarrow> stream_event list"
  zbase32_decode :: "string \<Rightarrow> rejection + buffer"
  zbase32_encode :: "buffer \<Rightarrow> string"
  secp256k1_recover_key :: "buffer \<Rightarrow> buffer \<Rightarrow> int \<Rightarrow> bool \<Rightarrow> rejection + buffer"
  lnd_verifyMessage :: "buffer \<Rightarrow> string \<Rightarrow> (string option \<times> VerifyResponse option) option"
  lnd_signMessage :: "buffer \<Rightarrow> (string option \<times> string option) option"
  libhsmd_Handle :: "buffer \<Rightarrow> rejection + string"
  media_host :: string

definition IS_LND :: "env \<Rightarrow> bool" where
  "IS_LND e = (lightning_provider e = ''LND'')"

definition IS_GREENLIGHT :: "env \<Rightarrow> bool" where
  "IS_GREENLIGHT e = (lightning_provider e = ''GREENLIGHT'')"

definition LND_KEYSEND_KEY :: nat where "LND_KEYSEND_KEY = 5482373484"
definition SPHINX_CUSTOM_RECORD_KEY :: nat where "SPHINX_CUSTOM_RECORD_KEY = 133773310"
definition FEE_LIMIT_SAT :: int where "FEE_LIMIT_SAT = 10000"

datatype effect =
    Log_info string
  | Log_error rejection
  | Random_bytes nat
  | Send_payment_sync client KeysendRequest
  | Greenlight_keysend client KeysendRequest
  | Send_payment_v2 KeysendRequest
  | Sleep nat

text \<open>The module-level variables \<open>lightningClient\<close> and \<open>routerClient\<close>, the effects
  performed so far (oldest first) and the clock in milliseconds.  The effects are the
  lines written through \<open>sphinxLogger\<close>, the random bytes drawn, the requests handed to a
  node and the pauses; what is printed with \<open>console.log\<close> is left out.\<close>

record world =
  lightningClient :: "client option"
  routerClient :: "string option"
  effects :: "effect list"
  clock_ms :: nat

definition perform :: "effect \<Rightarrow> world \<Rightarrow> world" where
  "perform x w = w\<lparr>effects := effects w @ [x]\<rparr>"

definition truthy :: "string option \<Rightarrow> bool" where
  "truthy s = (case s of None \<Rightarrow> False | Some v \<Rightarrow> v \<noteq> [])"

definition loadCredentials :: "env \<Rightarrow> string option \<Rightarrow> rejection + string" where
  "loadCredentials e macName =
     (case read_lnd_credentials e macName of
        None \<Rightarrow> Inl (Msg ''cannot read LND macaroon or cert'')
      | Some creds \<Rightarrow> Inr creds)"

text \<open>\<open>loadLightning(tryProxy, ownerPubkey, noCache)\<close>.  On the proxy path the assignment to
  \<open>lightningClient\<close> comes before the test of the value assigned.\<close>

definition loadLightning ::
  "env \<Rightarrow> bool \<Rightarrow> string option \<Rightarrow> bool \<Rightarrow> world \<Rightarrow> (rejection + client) \<times> world" where
  "loadLightning e tryProxy ownerPubkey noCache w =
     (if tryProxy \<and> isProxy e None \<and> truthy ownerPubkey then
        (case loadProxyLightning e (case ownerPubkey of Some p \<Rightarrow> p | None \<Rightarrow> []) of
           Inl x \<Rightarrow> (Inl x, w)
         | Inr c \<Rightarrow>
             (case c of
                None \<Rightarrow> (Inl (Msg ''no lightning client''), w\<lparr>lightningClient := None\<rparr>)
              | Some cl \<Rightarrow> (Inr cl, w\<lparr>lightningClient := Some cl\<rparr>)))
      else
        (case (if noCache then None else lightningClient w) of
           Some cl \<Rightarrow> (Inr cl, w)
         | None \<Rightarrow>
             if IS_GREENLIGHT e then
               (case read_greenlight_credentials e of
                  Inl x \<Rightarrow> (Inl x, w)
                | Inr credentials \<Rightarrow>
                    (case nth_truthy (split_js ''//'' (get_greenlight_grpc_uri e)) 1 of
                       None \<Rightarrow> (Inl (Msg ''no lightning client''), w)
                     | Some uri1 \<Rightarrow>
                         (Inr (Greenlight_Node uri1), w\<lparr>lightningClient := Some (Greenlight_Node uri1)\<rparr>)))
             else
               (case loadCredentials e None of
                  Inl x \<Rightarrow> (Inl x, w)
                | Inr credentials \<Rightarrow>
                    (Inr (Lnd_Lightning (lnd_address e)),
                     w\<lparr>lightningClient := Some (Lnd_Lightning (lnd_address e))\<rparr>))))"

definition loadRouter :: "env \<Rightarrow> world \<Rightarrow> (rejection + string) \<times> world" where
  "loadRouter e w =
     (case routerClient w of
        Some r \<Rightarrow> (Inr r, w)
      | None \<Rightarrow>
          (case loadCredentials e (Some ''router.macaroon'') of
             Inl x \<Rightarrow> (Inl x, w)
           | Inr credentials \<Rightarrow> (Inr (lnd_address e), w\<lparr>routerClient := Some (lnd_address e)\<rparr>)))"

section \<open>Wallet lock\<close>

text \<open>
  \<^verbatim>\<open>
  let isLocked = false
  let lockTimeout: ReturnType<typeof setTimeout>
  export function getLock(): boolean { return isLocked }
  export function setLock(value: boolean): void {
    isLocked = value
    if (lockTimeout) clearTimeout(lockTimeout)
    lockTimeout = setTimeout(() => { isLocked = false }, 1000 * 60 * 2)
  }
  \<close>
  The pending timer is kept as the time at which it falls due; \<open>setLock\<close> is given the
  time of the call.  \<open>run_timers now\<close> is the event loop reaching time \<open>now\<close>: a timer that
  is due runs its callback and is gone.
\<close>

record lock_state =
  isLocked :: bool
  lockTimeout :: "nat option"

definition lock_init :: lock_state where
  "lock_init = \<lparr>isLocked = False, lockTimeout = None\<rparr>"

definition getLock :: "lock_state \<Rightarrow> bool" where
  "getLock s = isLocked s"

definition setLock :: "bool \<Rightarrow> nat \<Rightarrow> lock_state \<Rightarrow> lock_state" where
  "setLock v now s = s\<lparr>isLocked := v, lockTimeout := Some (now + 1000 * 60 * 2)\<rparr>"

definition run_timers :: "nat \<Rightarrow> lock_state \<Rightarrow> lock_state" where
  "run_timers now s =
     (case lockTimeout s of
        None \<Rightarrow> s
      | Some due \<Rightarrow> if due \<le> now then s\<lparr>isLocked := False, lockTimeout := None\<rparr> else s)"

text \<open>A history of \<open>setLock\<close> calls, each with the time at which it is made.\<close>

fun run_lock :: "(nat \<times> bool) list \<Rightarrow> lock_state \<Rightarrow> lock_state" where
  "run_lock [] s = s"
| "run_lock ((t, v) # calls) s = run_lock calls (setLock v t (run_timers t s))"

section \<open>Keysend\<close>

text \<open>A promise that is settled is \<open>Some (Inr value)\<close> (resolved) or \<open>Some (Inl reason)\<close>
  (rejected); \<open>None\<close> is a promise that is never settled, on which an \<open>await\<close> does not
  return.\<close>

type_synonym 'a promise = "(rejection + 'a) option"

text \<open>The \<open>dest_custom_records\<close> object: the preimage under the keysend key, then the
  caller's extra records, then the payload under the sphinx key; a later assignment to a
  key that is present replaces its value.\<close>

definition dest_custom_records :: "KeysendOpts \<Rightarrow> buffer \<Rightarrow> (string \<times> buffer) list" where
  "dest_custom_records opts preimage =
     (let r0 = [(toString10 LND_KEYSEND_KEY, preimage)];
          r1 = (case extra_tlv opts of
                  None \<Rightarrow> r0
                | Some tlv \<Rightarrow> foldl (\<lambda>r (k, v). AList.update k (utf8 v) r) r0 tlv)
      in if truthy (data opts)
         then AList.update (toString10 SPHINX_CUSTOM_RECORD_KEY)
                (utf8 (case data opts of Some d \<Rightarrow> d | None \<Rightarrow> [])) r1
         else r1)"

definition includes_colon :: "string \<Rightarrow> bool" where
  "includes_colon s = (CHR '':'' \<in> set s)"

text \<open>The \<open>options\<close> object of \<open>keysend\<close>, with the route hint added when there is one.\<close>

definition keysend_options :: "env \<Rightarrow> KeysendOpts \<Rightarrow> buffer \<Rightarrow> KeysendRequest" where
  "keysend_options e opts preimage =
     \<lparr>req_amt = max (amt opts) (if min_sat_amount e \<noteq> 0 then min_sat_amount e else 3),
      req_final_cltv_delta = final_cltv_delta e,
      req_dest = from_hex (dest opts),
      req_dest_custom_records = dest_custom_records opts preimage,
      req_payment_hash = sha256 e preimage,
      req_dest_features = [9],
      req_route_hints =
        (case route_hint opts of
           None \<Rightarrow> None
         | Some h \<Rightarrow>
             if h \<noteq> [] \<and> includes_colon h
             then (let arr = split_js '':'' h in Some [[(arr ! 0, arr ! 1)]])
             else None),
      req_fee_limit = None,
      req_fee_limit_sat = None,
      req_timeout_seconds = None\<rparr>"

text \<open>The callback given to \<open>sendPaymentSync\<close> on the proxy.\<close>

definition sync_callback :: "(string option \<times> send_response option) option \<Rightarrow> response promise" where
  "sync_callback reply =
     (case reply of
        None \<Rightarrow> None
      | Some (err, resp) \<Rightarrow>
          (case resp of
             None \<Rightarrow> Some (Inl (Upstream err))
           | Some r \<Rightarrow>
               if err \<noteq> None then Some (Inl (Upstream err))
               else if sr_payment_error r \<noteq> [] then Some (Inl (Payment_error (sr_payment_error r)))
               else Some (Inr (Send_response r))))"

text \<open>The callback given to \<open>keysend\<close> on the remote signer.\<close>

definition greenlight_callback :: "(string option \<times> send_response option) option \<Rightarrow> response promise" where
  "greenlight_callback reply =
     (case reply of
        None \<Rightarrow> None
      | Some (err, resp) \<Rightarrow>
          (case resp of
             None \<Rightarrow> Some (Inl (Upstream err))
           | Some r \<Rightarrow> if err = None then Some (Inr (Send_response r)) else Some (Inl (Upstream err))))"

text \<open>The \<open>data\<close> and \<open>error\<close> handlers of the \<open>sendPaymentV2\<close> stream; the first event
  that settles the promise decides it.\<close>

fun v2_stream :: "stream_event list \<Rightarrow> response promise" where
  "v2_stream [] = None"
| "v2_stream (Stream_error err # evs) = Some (Inl (Upstream (Some err)))"
| "v2_stream (Data payment # evs) =
     (let st = (if status payment \<noteq> [] then status payment else state payment) in
      if payment_error payment \<noteq> [] then Some (Inl (Payment_error (payment_error payment)))
      else if st = ''IN_FLIGHT'' then v2_stream evs
      else if st = ''FAILED_NO_ROUTE'' \<or> st = ''FAILED'' then
        Some (Inl (if failure_reason payment \<noteq> [] then Failure_reason (failure_reason payment)
                   else Failed_payment payment))
      else if st = ''SUCCEEDED'' then Some (Inr (Payment payment))
      else v2_stream evs)"

definition keysend :: "env \<Rightarrow> KeysendOpts \<Rightarrow> string option \<Rightarrow> world \<Rightarrow> response promise \<times> world" where
  "keysend e opts ownerPubkey w0 =
     (let w = perform (Log_info ''keysend'') w0 in
      if length (dest opts) \<noteq> 66 then (Some (Inl (Msg ''keysend: invalid pubkey'')), w)
      else
        let preimage = randomBytes e (length (effects w)) 32;
            w1 = perform (Random_bytes 32) w;
            options = keysend_options e opts preimage
        in case loadLightning e True ownerPubkey False w1 of
             (Inl x, w2) \<Rightarrow> (Some (Inl x), w2)
           | (Inr lightning, w2) \<Rightarrow>
               if isProxy e (Some lightning) then
                 (let req = options\<lparr>req_fee_limit := Some FEE_LIMIT_SAT\<rparr>
                  in (sync_callback (sendPaymentSync e (length (effects w2)) req),
                      perform (Send_payment_sync lightning req) w2))
               else
                 (case loadLightning e False ownerPubkey False w2 of
                    (Inl x, w3) \<Rightarrow> (Some (Inl x), w3)
                  | (Inr lightning2, w3) \<Rightarrow>
                      if IS_GREENLIGHT e then
                        (greenlight_callback (greenlight_keysend e (length (effects w3)) options),
                         perform (Greenlight_keysend lightning2 options) w3)
                      else
                        (let req = options\<lparr>req_fee_limit_sat := Some FEE_LIMIT_SAT,
                                             req_timeout_seconds := Some 16\<rparr>
                         in case loadRouter e w3 of
                              (Inl x, w4) \<Rightarrow> (Some (Inl x), w4)
                            | (Inr router, w4) \<Rightarrow>
                                (v2_stream (sendPaymentV2 e (length (effects w4)) req),
                                 perform (Send_payment_v2 req) w4))))"

section \<open>Message weaving\<close>

definition MAX_MSG_LENGTH :: nat where "MAX_MSG_LENGTH = 972"

text \<open>\<open>Math.ceil(a / b)\<close> on non-negative integers, \<open>b\<close> positive.\<close>

definition ceil_div :: "nat \<Rightarrow> nat \<Rightarrow> nat" where
  "ceil_div a b = (a + b - 1) div b"

text \<open>\<open>str.substring(a, b)\<close> for \<open>a \<le> b\<close>.\<close>

definition substring :: "string \<Rightarrow> nat \<Rightarrow> nat \<Rightarrow> string" where
  "substring s a b = take (b - a) (drop a s)"

text \<open>The payload of chunk \<open>i\<close> of \<open>n\<close>: \<open>`${ts}_${i}_${n}_${m}`\<close>.\<close>

definition chunk_m :: "string \<Rightarrow> nat \<Rightarrow> nat \<Rightarrow> string" where
  "chunk_m d n i = (let spliti = ceil_div (length d) n in substring d (i * spliti) (i * spliti + spliti))"

definition chunk_data :: "nat \<Rightarrow> nat \<Rightarrow> nat \<Rightarrow> string \<Rightarrow> string" where
  "chunk_data ts i n m = toString10 ts @ ''_'' @ toString10 i @ ''_'' @ toString10 n @ ''_'' @ m"

definition chunk_opts :: "env \<Rightarrow> KeysendOpts \<Rightarrow> string \<Rightarrow> nat \<Rightarrow> nat \<Rightarrow> nat \<Rightarrow> KeysendOpts" where
  "chunk_opts e opts d ts n i =
     opts\<lparr>amt := (if i = n - 1 then amt opts else min_sat_amount e),
          data := Some (chunk_data ts i n (chunk_m d n i))\<rparr>"

text \<open>The variables \<open>success\<close>, \<open>fail\<close> and \<open>res\<close> of the loop.\<close>

record weave_vars =
  success :: bool
  fail :: bool
  res :: "response option"

definition sleep :: "nat \<Rightarrow> world \<Rightarrow> world" where
  "sleep ms w = (perform (Sleep ms) w)\<lparr>clock_ms := clock_ms w + ms\<rparr>"

text \<open>The loop \<open>for (let i = 0; i < n; i++)\<close>, from index \<open>i\<close> on.  \<open>None\<close>: an awaited
  keysend never settles, and neither does the weave.\<close>

function weave ::
  "env \<Rightarrow> KeysendOpts \<Rightarrow> string option \<Rightarrow> string \<Rightarrow> nat \<Rightarrow> nat \<Rightarrow> nat \<Rightarrow> weave_vars \<Rightarrow> world
    \<Rightarrow> weave_vars option \<times> world" where
  "weave e opts ownerPubkey d ts n i vars w =
     (if i < n then
        (case keysend e (chunk_opts e opts d ts n i) ownerPubkey w of
           (None, w') \<Rightarrow> (None, w')
         | (Some (Inr r), w') \<Rightarrow>
             weave e opts ownerPubkey d ts n (i + 1) (vars\<lparr>res := Some r, success := True\<rparr>) (sleep 432 w')
         | (Some (Inl x), w') \<Rightarrow>
             weave e opts ownerPubkey d ts n (i + 1) (vars\<lparr>fail := True\<rparr>) (perform (Log_error x) w'))
      else (Some vars, w))"
  by pat_completeness auto
termination
  by (relation "measure (\<lambda>(e, opts, ownerPubkey, d, ts, n, i, vars, w). n - i)") auto

declare weave.simps [simp del]

text \<open>\<open>keysendMessage(opts, ownerPubkey)\<close>.  It resolves with \<open>res\<close>, which starts as
  null, hence the optional response.\<close>

definition keysendMessage ::
  "env \<Rightarrow> KeysendOpts \<Rightarrow> string option \<Rightarrow> world \<Rightarrow> response option promise \<times> world" where
  "keysendMessage e opts ownerPubkey w0 =
     (let w = perform (Log_info ''keysendMessage'') w0 in
      case data opts of
        None \<Rightarrow> (Some (Inl (Msg ''string plz'')), w)
      | Some d \<Rightarrow>
          if d = [] then (Some (Inl (Msg ''string plz'')), w)
          else if length d < MAX_MSG_LENGTH then
            (case keysend e opts ownerPubkey w of
               (None, w') \<Rightarrow> (None, w')
             | (Some (Inr r), w') \<Rightarrow> (Some (Inr (Some r)), w')
             | (Some (Inl x), w') \<Rightarrow> (Some (Inl x), w'))
          else
            let n = ceil_div (length d) MAX_MSG_LENGTH;
                ts = clock_ms w
            in case weave e opts ownerPubkey d ts n 0 \<lparr>success = False, fail = False, res = None\<rparr> w of
                 (None, w') \<Rightarrow> (None, w')
               | (Some vars, w') \<Rightarrow>
                   if success vars \<and> \<not> fail vars then (Some (Inr (res vars)), w')
                   else (Some (Inl (Msg ''fail'')), w'))"

text \<open>The outcomes reported to the loop by its keysend calls, in the order of the calls,
  from index \<open>i\<close> on: a reading of the same loop, kept to state what the loop does.\<close>

function chunk_results ::
  "env \<Rightarrow> KeysendOpts \<Rightarrow> string option \<Rightarrow> string \<Rightarrow> nat \<Rightarrow> nat \<Rightarrow> nat \<Rightarrow> world
    \<Rightarrow> response promise list" where
  "chunk_results e opts ownerPubkey d ts n i w =
     (if i < n then
        (case keysend e (chunk_opts e opts d ts n i) ownerPubkey w of
           (None, w') \<Rightarrow> [None]
         | (Some (Inr r), w') \<Rightarrow>
             Some (Inr r) # chunk_results e opts ownerPubkey d ts n (i + 1) (sleep 432 w')
         | (Some (Inl x), w') \<Rightarrow>
             Some (Inl x) # chunk_results e opts ownerPubkey d ts n (i + 1) (perform (Log_error x) w'))
      else [])"
  by pat_completeness auto
termination
  by (relation "measure (\<lambda>(e, opts, ownerPubkey, d, ts, n, i, w). n - i)") auto

declare chunk_results.simps [simp del]

text \<open>The number of keysend invocations recorded in a list of effects: \<open>keysend\<close> writes
  the line \<open>keysend\<close> to the log as its first step.\<close>

definition keysend_calls :: "effect list \<Rightarrow> nat" where
  "keysend_calls es = length (filter (\<lambda>x. x = Log_info ''keysend'') es)"

text \<open>The response of the last resolved call in a list of outcomes, \<open>a\<close> if there is none.\<close>

definition last_response :: "response option \<Rightarrow> response promise list \<Rightarrow> response option" where
  "last_response a rs = foldl (\<lambda>a x. case x of Some (Inr r) \<Rightarrow> Some r | _ \<Rightarrow> a) a rs"

text \<open>A settled promise is resolved or rejected.\<close>

definition resolved :: "'a promise \<Rightarrow> bool" where
  "resolved p = (case p of Some (Inr r) \<Rightarrow> True | _ \<Rightarrow> False)"

definition rejected :: "'a promise \<Rightarrow> bool" where
  "rejected p = (case p of Some (Inl x) \<Rightarrow> True | _ \<Rightarrow> False)"

definition settled :: "'a promise \<Rightarrow> bool" where
  "settled p = (p \<noteq> None)"

section \<open>Signing and verification\<close>

text \<open>\<open>buf.subarray(a, b)\<close> and \<open>buf.slice(a, b)\<close> for \<open>a \<le> b\<close>; \<open>Buffer.concat(list, n)\<close>, which
  cuts the concatenation at \<open>n\<close> bytes or fills it with zero bytes up to \<open>n\<close>.\<close>

definition subarray :: "buffer \<Rightarrow> nat \<Rightarrow> nat \<Rightarrow> buffer" where
  "subarray buf a b = take (b - a) (drop a buf)"

definition concat_to :: "buffer list \<Rightarrow> nat \<Rightarrow> buffer" where
  "concat_to bufs n = take n (concat bufs @ replicate n 0)"

text \<open>\<open>signBuffer(msg, ownerPubkey)\<close>.  \<open>libhsmd_Handle\<close> stands for
  \<open>libhsmd.Handle(1024, 0, null, interfaces.greenlightSignMessagePayload(msg))\<close>.  Reading
  the recovery id from an empty slice throws, and so does writing a value above 255 into
  one byte.\<close>

definition signBuffer :: "env \<Rightarrow> buffer \<Rightarrow> string option \<Rightarrow> world \<Rightarrow> string promise \<times> world" where
  "signBuffer e msg ownerPubkey w0 =
     (let w = perform (Log_info ''signBuffer'') w0 in
      case loadLightning e True ownerPubkey False w of
        (Inl x, w1) \<Rightarrow> (Some (Inl x), w1)
      | (Inr lightning, w1) \<Rightarrow>
          if IS_GREENLIGHT e then
            (case libhsmd_Handle e msg of
               Inl x \<Rightarrow> (Some (Inl x), w1)
             | Inr sig \<Rightarrow>
                 let sigBuf = from_hex sig;
                     sigBytes = subarray sigBuf 2 66;
                     recidBytes = subarray sigBuf 66 67
                 in (case recidBytes of
                       [] \<Rightarrow> (Some (Inl (Msg ''RangeError'')), w1)
                     | b # bs \<Rightarrow>
                         let ecRecid = unat b + 31 in
                         if 255 < ecRecid then (Some (Inl (Msg ''RangeError'')), w1)
                         else (Some (Inr (zbase32_encode e (concat_to [[of_nat ecRecid], sigBytes] 65))), w1)))
          else if IS_LND e then
            (case lnd_signMessage e msg of
               None \<Rightarrow> (None, w1)
             | Some (err, sig) \<Rightarrow>
                 (case sig of
                    None \<Rightarrow> (Some (Inl (Upstream err)), w1)
                  | Some signature \<Rightarrow>
                      if err \<noteq> None \<or> signature = [] then (Some (Inl (Upstream err)), w1)
                      else (Some (Inr signature), w1)))
          else (None, w1))"

definition signMessage :: "env \<Rightarrow> string \<Rightarrow> string option \<Rightarrow> world \<Rightarrow> string promise \<times> world" where
  "signMessage e msg ownerPubkey w = signBuffer e (from_hex msg) ownerPubkey w"

definition signAscii :: "env \<Rightarrow> string \<Rightarrow> string option \<Rightarrow> world \<Rightarrow> string promise \<times> world" where
  "signAscii e ascii ownerPubkey w = signMessage e (ascii_to_hexa ascii) ownerPubkey w"

definition signed_message_prefix :: buffer where
  "signed_message_prefix = from_hex ''4c696768746e696e67205369676e6564204d6573736167653a''"

text \<open>\<open>verifyMessage(msg, sig, ownerPubkey)\<close>: \<open>msg\<close> is hex, \<open>sig\<close> is zbase32.\<close>

definition verifyMessage ::
  "env \<Rightarrow> string \<Rightarrow> string \<Rightarrow> string option \<Rightarrow> world \<Rightarrow> VerifyResponse promise \<times> world" where
  "verifyMessage e msg sig ownerPubkey w0 =
     (let w = perform (Log_info ''verifyMessage'') w0 in
      case loadLightning e True ownerPubkey False w of
        (Inl x, w1) \<Rightarrow> (Some (Inl x), w1)
      | (Inr lightning, w1) \<Rightarrow>
          if IS_GREENLIGHT e then
            (case zbase32_decode e sig of
               Inl x \<Rightarrow> (Some (Inl x), w1)
             | Inr fullBytes \<Rightarrow>
                 let sigBytes = drop 1 fullBytes;
                     recidBytes = take 1 fullBytes
                 in (case recidBytes of
                       [] \<Rightarrow> (Some (Inl (Msg ''RangeError'')), w1)
                     | b # bs \<Rightarrow>
                         let recid = int (unat b) - 31;
                             msgBytes = from_hex msg;
                             hash = sha256 e (sha256 e (concat_to [signed_message_prefix, msgBytes]
                                      (length msgBytes + length signed_message_prefix)))
                         in (case secp256k1_recover_key e hash sigBytes recid True of
                               Inl x \<Rightarrow> (Some (Inl x), w1)
                             | Inr recoveredPubkey \<Rightarrow>
                                 (Some (Inr \<lparr>valid = True, pubkey = to_hex recoveredPubkey\<rparr>), w1))))
          else if IS_LND e then
            (case lnd_verifyMessage e (from_hex msg) sig of
               None \<Rightarrow> (None, w1)
             | Some (err, r) \<Rightarrow>
                 (case r of
                    None \<Rightarrow> (Some (Inl (Upstream err)), w1)
                  | Some vr \<Rightarrow>
                      if err \<noteq> None \<or> pubkey vr = [] then (Some (Inl (Upstream err)), w1)
                      else (Some (Inr vr), w1)))
          else (None, w1))"

definition verifyAscii ::
  "env \<Rightarrow> string \<Rightarrow> string \<Rightarrow> string option \<Rightarrow> world \<Rightarrow> VerifyResponse promise \<times> world" where
  "verifyAscii e ascii sig ownerPubkey w = verifyMessage e (ascii_to_hexa ascii) sig ownerPubkey w"

text \<open>A history of \<open>loadLightning\<close> calls, each given as \<open>(tryProxy, ownerPubkey, noCache)\<close>,
  with the outcome of every call.\<close>

fun loadLightning_calls ::
  "env \<Rightarrow> (bool \<times> string option \<times> bool) list \<Rightarrow> world \<Rightarrow> (rejection + client) list \<times> world" where
  "loadLightning_calls e [] w = ([], w)"
| "loadLightning_calls e ((tryProxy, ownerPubkey, noCache) # calls) w =
     (case loadLightning e tryProxy ownerPubkey noCache w of
        (r, w') \<Rightarrow> (case loadLightning_calls e calls w' of (rs, w'') \<Rightarrow> (r # rs, w'')))"

section \<open>Paginated invoice history\<close>

text \<open>
  The request, the reply of the node's \<open>listInvoices\<close> call (whose \<open>invoices\<close> field may
  be missing) and the value \<open>listInvoicesPaginated\<close> resolves with.  The client is the
  outcome of \<open>await loadLightning()\<close> together with the node behind it: \<open>None\<close> when no
  client is obtained, in which case the promise of \<open>listInvoicesPaginated\<close> is never
  settled, as the exception is thrown inside its \<open>async\<close> executor.
\<close>

record ListInvoiceRequest =
  num_max_invoices :: int
  index_offset :: int
  reversed :: bool

record 'a ListInvoiceResponse =
  resp_first_index_offset :: string
  resp_invoices :: "'a list option"

record 'a invoice_page =
  first_index_offset :: string
  invoices :: "'a list"

type_synonym 'a invoices_client =
  "(ListInvoiceRequest \<Rightarrow> (string option \<times> 'a ListInvoiceResponse option) option) option"

definition listInvoicesPaginated :: "'a invoices_client \<Rightarrow> int \<Rightarrow> int \<Rightarrow> 'a invoice_page promise" where
  "listInvoicesPaginated lightning limit offset =
     (case lightning of
        None \<Rightarrow> None
      | Some listInvoices \<Rightarrow>
          (case listInvoices \<lparr>num_max_invoices = limit, index_offset = offset, reversed = True\<rparr> of
             None \<Rightarrow> None
           | Some (err, response) \<Rightarrow>
               (case response of
                  None \<Rightarrow> Some (Inl (Upstream err))
                | Some r \<Rightarrow>
                    (case resp_invoices r of
                       None \<Rightarrow> Some (Inl (Upstream err))
                     | Some invs \<Rightarrow>
                         if err = None
                         then Some (Inr \<lparr>first_index_offset = resp_first_index_offset r, invoices = invs\<rparr>)
                         else Some (Inl (Upstream err))))))"

text \<open>\<open>paginateInvoices(limit, i)\<close>.  The recursion follows the offsets the node returns and
  need not end; \<open>None\<close> is a call that does not return.  The \<open>catch\<close> turns a rejected
  page into the empty list.\<close>

partial_function (option) paginateInvoices :: "'a invoices_client \<Rightarrow> int \<Rightarrow> int \<Rightarrow> 'a list option" where
  "paginateInvoices lightning limit i =
     (case listInvoicesPaginated lightning limit i of
        None \<Rightarrow> None
      | Some (Inl x) \<Rightarrow> Some []
      | Some (Inr r) \<Rightarrow>
          (case parseInt (first_index_offset r) of
             None \<Rightarrow> Some (invoices r)
           | Some lastOffset \<Rightarrow>
               if 0 < lastOffset
               then Option.bind (paginateInvoices lightning limit lastOffset)
                      (\<lambda>rest. Some (invoices r @ rest))
               else Some (invoices r)))"

definition listAllInvoices :: "'a invoices_client \<Rightarrow> 'a list option" where
  "listAllInvoices lightning = paginateInvoices lightning 40 0"

text \<open>Following a list of pages from offset \<open>i\<close>: the request at the current offset is
  answered with the next page of the list, whose \<open>first_index_offset\<close> parses to a positive
  number, the offset of the following request.  The result is the offset reached after
  the last page of the list.\<close>

fun follow_pages :: "'a invoices_client \<Rightarrow> int \<Rightarrow> (string \<times> 'a list) list \<Rightarrow> int option" where
  "follow_pages lightning i [] = Some i"
| "follow_pages lightning i ((s, items) # ps) =
     (if listInvoicesPaginated lightning 40 i = Some (Inr \<lparr>first_index_offset = s, invoices = items\<rparr>)
      then (case parseInt s of
              None \<Rightarrow> None
            | Some off \<Rightarrow> if 0 < off then follow_pages lightning off ps else None)
      else None)"

section \<open>Building a token\<close>

text \<open>The terms of a token.  The fields carry the prefix \<open>t_\<close>; \<open>ttl\<close> may be null and
  \<open>pubkey\<close> and \<open>ownerPubkey\<close> may be left out.\<close>

record LdatTerms =
  t_host :: string
  t_ttl :: "int option"
  t_muid :: string
  t_pubkey :: "string option"
  t_meta :: js_object
  t_ownerPubkey :: "string option"

text \<open>The constants \<open>now\<close> and \<open>exp\<close> of \<open>tokenFromTerms\<close>, from \<open>Date.now()\<close> in milliseconds
  and the \<open>ttl\<close> of the terms:
  \<^verbatim>\<open>
  const now = Math.floor(Date.now() / 1000)
  const exp = ttl ? now + 60 * 60 * 24 * 365 : 0
  \<close>\<close>

definition expiry :: "nat \<Rightarrow> int option \<Rightarrow> nat" where
  "expiry date_now ttl =
     (let now = date_now div 1000 in
      if ttl \<noteq> None \<and> ttl \<noteq> Some 0 then now + 60 * 60 * 24 * 365 else 0)"

text \<open>\<open>tokenFromTerms(terms)\<close>.  Without a \<open>pubkey\<close> (here \<open>pk\<close>) the conversion from hex throws.  Whatever
  is thrown is logged and thrown again.\<close>

definition tokenFromTerms :: "env \<Rightarrow> LdatTerms \<Rightarrow> world \<Rightarrow> string promise \<times> world" where
  "tokenFromTerms e t w =
     (let theHost = (if t_host t \<noteq> [] then t_host t else media_host e) in
      case t_pubkey t of
        None \<Rightarrow> (Some (Inl (Msg ''TypeError'')), perform (Log_error (Msg ''TypeError'')) w)
      | Some pk \<Rightarrow>
          let pubkey64 = urlBase64FromBytes (from_hex pk);
              exp = expiry (clock_ms w) (t_ttl t);
              ldat = startLDAT theHost (t_muid t) pubkey64 exp (t_meta t)
          in if pk \<noteq> [] then
               (case signBuffer e (bytes ldat) (t_ownerPubkey t) w of
                  (None, w') \<Rightarrow> (None, w')
                | (Some (Inl x), w') \<Rightarrow> (Some (Inl x), perform (Log_error x) w')
                | (Some (Inr sig), w') \<Rightarrow>
                    (case zbase32_decode e sig of
                       Inl x \<Rightarrow> (Some (Inl x), perform (Log_error x) w')
                     | Inr sigBytes \<Rightarrow>
                         (Some (Inr (terms ldat @ ''.'' @ urlBase64FromBytes sigBytes)), w')))
             else (Some (Inr (terms ldat)), w))"

section \<open>An example configuration\<close>

text \<open>A remote-signer node that answers every keysend but refuses the payments of the
  minimum amount, which are the chunks of a weave before the last; used to run the
  definitions on concrete inputs.  Hex stands in for zbase32, the first 33 bytes of a
  signature for the key recovered from it, and the signing daemon answers with zero
  bytes.\<close>

definition example_env :: env where
  "example_env =
     \<lparr>isProxy = (\<lambda>c. False),
      lightning_provider = ''GREENLIGHT'',
      loadProxyLightning = (\<lambda>p. Inr None),
      read_greenlight_credentials = Inr ''credentials'',
      get_greenlight_grpc_uri = ''https://localhost:2601'',
      read_lnd_credentials = (\<lambda>m. Some ''credentials''),
      lnd_address = ''localhost:10009'',
      min_sat_amount = 3,
      final_cltv_delta = 141,
      randomBytes = (\<lambda>i n. replicate n 7),
      sha256 = (\<lambda>b. replicate 32 0),
      sendPaymentSync = (\<lambda>i req. None),
      greenlight_keysend =
        (\<lambda>i req. if req_amt req = 3 then Some (Some ''no route'', None)
                  else Some (None, Some \<lparr>sr_payment_error = [], sr_payment_preimage = [],
                                           sr_payment_hash = req_payment_hash req\<rparr>)),
      sendPaymentV2 = (\<lambda>i req. []),
      zbase32_decode = (\<lambda>s. Inr (from_hex s)),
      zbase32_encode = (\<lambda>b. to_hex b),
      secp256k1_recover_key = (\<lambda>h s r c. Inr (take 33 s)),
      lnd_verifyMessage = (\<lambda>m s. None),
      lnd_signMessage = (\<lambda>m. None),
      libhsmd_Handle = (\<lambda>p. Inr (replicate 134 (CHR ''0''))),
      media_host = ''memes.sphinx.chat''\<rparr>"

definition example_world :: world where
  "example_world = \<lparr>lightningClient = None, routerClient = None, effects = [], clock_ms = 1700000000000\<rparr>"

definition example_opts :: "string \<Rightarrow> KeysendOpts" where
  "example_opts d =
     \<lparr>amt = 10,
      dest = ''0373ca36a331d8fd847f190908715a34997b15dc3c5d560ca032cf3412fcf494e4'',
      data = Some d, route_hint = None, extra_tlv = None\<rparr>"

text \<open>A node with 52 invoices, numbered from 1, served in two pages, and a node whose
  second page fails.\<close>

definition example_invoices :: "nat invoices_client" where
  "example_invoices =
     Some (\<lambda>req.
       if index_offset req = 0
       then Some (None, Some \<lparr>resp_first_index_offset = ''40'', resp_invoices = Some [1..<41]\<rparr>)
       else if index_offset req = 40
       then Some (None, Some \<lparr>resp_first_index_offset = ''0'', resp_invoices = Some [41..<53]\<rparr>)
       else Some (Some ''no such offset'', None))"

definition example_invoices_failing :: "nat invoices_client" where
  "example_invoices_failing =
     Some (\<lambda>req.
       if index_offset req = 0
       then Some (None, Some \<lparr>resp_first_index_offset = ''40'', resp_invoices = Some [1..<41]\<rparr>)
       else Some (Some ''unavailable'', None))"

text \<open>The same node behind a forwarding proxy that hands out one client per owner.\<close>

definition example_proxy_env :: env where
  "example_proxy_env =
     example_env\<lparr>isProxy := (\<lambda>c. True), loadProxyLightning := (\<lambda>p. Inr (Some (Proxy_Lightning p)))\<rparr>"


definition test_terms :: LdatTerms where
  "test_terms =
     \<lparr>t_host = [],
      t_ttl = Some 31536000,
      t_muid = ''qFSOa50yWeGSG8oelsMvctLYdejPRD090dsypBSx_xg='',
      t_pubkey = Some ''0373ca36a331d8fd847f190908715a34997b15dc3c5d560ca032cf3412fcf494e4'',
      t_meta = [(''amt'', Num 100), (''ttl'', Num 31536000), (''dim'', Str ''1500x1300'')],
      t_ownerPubkey = Some ''0373ca36a331d8fd847f190908715a34997b15dc3c5d560ca032cf3412fcf494e4''\<rparr>"

definition test_terms2 :: LdatTerms where
  "test_terms2 =
     \<lparr>t_host = [],
      t_ttl = Some 0,
      t_muid = ''qFSOa50yWeGSG8oelsMvctLYdejPRD090dsypBSx_xg='',
      t_pubkey = Some [],
      t_meta = [(''amt'', Num 100), (''ttl'', Num 31536000)],
      t_ownerPubkey = Some []\<rparr>"

lemma ascii_to_hexa_loop_eq:
  "ascii_to_hexa_loop cs arr1 = arr1 @ map (\<lambda>c. toString16 (of_char c)) cs"
  by (induction cs arbitrary: arr1) simp_all

lemma ascii_to_hexa_concat:
  "ascii_to_hexa str = concat (map (\<lambda>c. toString16 (of_char c)) str)"
  by (simp add: ascii_to_hexa_def ascii_to_hexa_loop_eq)



text \<open>
  Claim C7.  \<open>ascii_to_hexa\<close> writes each code unit with \<open>toString(16)\<close>, which gives one
  digit for a code unit below 16.  The line feed becomes the single digit \<open>a\<close>; in
  \<open>a\<close>, line feed, \<open>b\<close> the digits run together to \<open>61a62\<close>, which \<open>signMessage\<close> reads back
  as the two bytes 61 and a6 and not as the three bytes of the string.
\<close>

theorem ascii_to_hexa_line_feed:
  "ascii_to_hexa [CHR 0x0A] = ''a''
   \<and> ascii_to_hexa [CHR ''a'', CHR 0x0A, CHR ''b''] = ''61a62''
   \<and> from_hex (ascii_to_hexa [CHR ''a'', CHR 0x0A, CHR ''b'']) = [0x61, 0xA6]
   \<and> signAscii e [CHR ''a'', CHR 0x0A, CHR ''b''] ow w = signBuffer e [0x61, 0xA6] ow w"
  by (simp add: ascii_to_hexa_def toString16.simps hexdigit_def hexval_def signAscii_def signMessage_def)

theorem ascii_to_hexa_line_feed_witness:
  "ascii_to_hexa [CHR ''a'', CHR 0x0A, CHR ''b''] = ''61a62''
   \<and> signAscii example_env [CHR ''a'', CHR 0x0A, CHR ''b''] None example_world
       = signBuffer example_env [0x61, 0xA6] None example_world"
  using ascii_to_hexa_line_feed [of example_env None example_world] by simp

section \<open>Properties of the text encodings and of the token codec\<close>

lemma unat_byte: "unat (b :: byte) < 256"
  using unsigned_less [of b, where 'a = nat] by simp

lemma byte_of_unat: "(of_nat (unat a) :: byte) = a"
  by simp

lemma sextet_nat:
  fixes x y z :: nat
  assumes "x < 256" "y < 256" "z < 256"
  shows "x div 4 < 64" "x mod 4 * 16 + y div 16 < 64" "y mod 16 * 4 + z div 64 < 64" "z mod 64 < 64"
    "x mod 4 * 16 < 64" "y mod 16 * 4 < 64"
proof -
  show "x div 4 < 64" using assms(1) by simp
  have "x mod 4 < 4" by simp
  moreover have "y div 16 < 16" using assms(2) by simp
  ultimately show "x mod 4 * 16 + y div 16 < 64" by linarith
  have "y mod 16 < 16" by simp
  moreover have "z div 64 < 4" using assms(3) by simp
  ultimately show "y mod 16 * 4 + z div 64 < 64" by linarith
  show "z mod 64 < 64" by simp
  show "x mod 4 * 16 < 64" using \<open>x mod 4 < 4\<close> by linarith
  show "y mod 16 * 4 < 64" using \<open>y mod 16 < 16\<close> by linarith
qed

lemma back_nat:
  fixes x y z :: nat
  assumes "y < 256" "z < 256"
  shows "x div 4 * 4 + (x mod 4 * 16 + y div 16) div 16 = x"
    "(x mod 4 * 16 + y div 16) mod 16 * 16 + (y mod 16 * 4 + z div 64) div 4 = y"
    "(y mod 16 * 4 + z div 64) mod 4 * 64 + z mod 64 = z"
    "x div 4 * 4 + (x mod 4 * 16) div 16 = x"
    "(x mod 4 * 16 + y div 16) mod 16 * 16 + (y mod 16 * 4) div 4 = y"
proof -
  have y16: "y div 16 < 16" using assms(1) by simp
  have z64: "z div 64 < 4" using assms(2) by simp
  have a: "(x mod 4 * 16 + y div 16) div 16 = x mod 4" using y16 by simp
  have b: "(x mod 4 * 16 + y div 16) mod 16 = y div 16" using y16 by simp
  have c: "(y mod 16 * 4 + z div 64) div 4 = y mod 16" using z64 by simp
  have d: "(y mod 16 * 4 + z div 64) mod 4 = z div 64" using z64 by simp
  show "x div 4 * 4 + (x mod 4 * 16 + y div 16) div 16 = x" by (simp add: a)
  show "(x mod 4 * 16 + y div 16) mod 16 * 16 + (y mod 16 * 4 + z div 64) div 4 = y" using y16 by (simp add: c)
  show "(y mod 16 * 4 + z div 64) mod 4 * 64 + z mod 64 = z" using z64 by simp
  show "x div 4 * 4 + (x mod 4 * 16) div 16 = x" by simp
  show "(x mod 4 * 16 + y div 16) mod 16 * 16 + (y mod 16 * 4) div 4 = y" using y16 by simp
qed

lemma b64_table:
  "list_all (\<lambda>v. unbase64 (urlchar (b64char v)) = Some v \<and> urlchar (b64char v) \<noteq> CHR ''.''
                 \<and> urlchar (b64char v) \<noteq> CHR ''='') [0..<64]"
  by (simp add: upt_rec b64char_def unbase64_def urlchar_def)

lemma b64_char:
  assumes "v < 64"
  shows "unbase64 (urlchar (b64char v)) = Some v" and "urlchar (b64char v) \<noteq> CHR ''.''"
    and "urlchar (b64char v) \<noteq> CHR ''=''"
  using b64_table assms by (simp_all add: list_all_iff)

lemma urlBase64_map: "urlBase64 buf = map urlchar (to_base64 buf)"
  by (simp add: urlBase64_def replace_all_def urlchar_def)

lemma urlchar_pad: "urlchar (CHR ''='') = CHR ''=''" "unbase64 (CHR ''='') = None"
  by (simp_all add: urlchar_def unbase64_def)

lemmas byte_sextets = sextet_nat [OF unat_byte unat_byte unat_byte]

lemmas byte_back = back_nat [OF unat_byte unat_byte]

lemma base64_values_group:
  "v < 64 \<Longrightarrow> base64_values (urlchar (b64char v) # cs) = v # base64_values cs"
  by (simp add: b64_char(1))

lemma base64_values_pad: "base64_values (CHR ''='' # cs) = []"
  by (simp add: urlchar_pad)

lemma from_base64_urlBase64: "from_base64 (urlBase64 bs) = bs"
proof -
  have "base64_bytes (base64_values (map urlchar (to_base64 bs))) = bs"
  proof (induction bs rule: to_base64.induct)
    case (1 a b c rest)
    have "base64_values (map urlchar (to_base64 (a # b # c # rest)))
        = unat a div 4 # (unat a mod 4 * 16 + unat b div 16) # (unat b mod 16 * 4 + unat c div 64)
          # unat c mod 64 # base64_values (map urlchar (to_base64 rest))"
      by (simp only: to_base64.simps list.map append.simps base64_values_group byte_sextets)
    then show ?case
      using 1 by (simp only: base64_bytes.simps byte_back byte_of_unat append.simps)
  next
    case (2 a b)
    have "base64_values (map urlchar (to_base64 [a, b]))
        = [unat a div 4, unat a mod 4 * 16 + unat b div 16, unat b mod 16 * 4]"
      by (simp only: to_base64.simps list.map base64_values_group byte_sextets urlchar_pad base64_values_pad)
    then show ?case
      by (simp only: base64_bytes.simps byte_back byte_of_unat)
  next
    case (3 a)
    have "base64_values (map urlchar (to_base64 [a])) = [unat a div 4, unat a mod 4 * 16]"
      by (simp only: to_base64.simps list.map base64_values_group byte_sextets urlchar_pad base64_values_pad)
    then show ?case
      by (simp only: base64_bytes.simps byte_back byte_of_unat)
  next
    case 4
    then show ?case by simp
  qed
  then show ?thesis by (simp add: from_base64_def urlBase64_map)
qed

lemma urlBase64_no_dot: "CHR ''.'' \<notin> set (urlBase64 bs)"
proof -
  have "CHR ''.'' \<notin> set (map urlchar (to_base64 bs))"
  proof (induction bs rule: to_base64.induct)
    case (1 a b c rest)
    then show ?case
      using b64_char(2) [OF byte_sextets(1), of a] b64_char(2) [OF byte_sextets(2), of a b]
        b64_char(2) [OF byte_sextets(3), of b c] b64_char(2) [OF byte_sextets(4), of c]
      by (simp del: set_map) 
  next
    case (2 a b)
    then show ?case
      using b64_char(2) [OF byte_sextets(1), of a] b64_char(2) [OF byte_sextets(2), of a b]
        b64_char(2) [OF byte_sextets(6), of b]
      by (simp add: urlchar_pad)
  next
    case (3 a)
    then show ?case
      using b64_char(2) [OF byte_sextets(1), of a] b64_char(2) [OF byte_sextets(5), of a]
      by (simp add: urlchar_pad)
  next
    case 4
    then show ?case by simp
  qed
  then show ?thesis by (simp add: urlBase64_map)
qed

lemma urlBase64_empty: "urlBase64 bs = [] \<longleftrightarrow> bs = []"
  by (cases bs rule: to_base64.cases) (simp_all add: urlBase64_map)

lemma split_go_piece:
  "c \<notin> set s \<Longrightarrow> split_go [c] cur 0 (s @ c # rest) = (cur @ s) # split_go [c] [] 0 rest"
  by (induction s arbitrary: cur) auto

lemma split_go_last: "c \<notin> set s \<Longrightarrow> split_go [c] cur 0 s = [cur @ s]"
  by (induction s arbitrary: cur) auto

lemma split_five:
  assumes "c \<notin> set f0" "c \<notin> set f1" "c \<notin> set f2" "c \<notin> set f3" "c \<notin> set f4"
  shows "split_js [c] (f0 @ [c] @ f1 @ [c] @ f2 @ [c] @ f3 @ [c] @ f4) = [f0, f1, f2, f3, f4]"
  using assms by (simp add: split_js_def split_go_piece split_go_last)

lemma split_six:
  assumes "c \<notin> set f0" "c \<notin> set f1" "c \<notin> set f2" "c \<notin> set f3" "c \<notin> set f4" "c \<notin> set f5"
  shows "split_js [c] ((f0 @ [c] @ f1 @ [c] @ f2 @ [c] @ f3 @ [c] @ f4) @ [c] @ f5) = [f0, f1, f2, f3, f4, f5]"
  using assms by (simp add: split_js_def split_go_piece split_go_last)


lemma to_ascii_from_ascii:
  "list_all (\<lambda>c. (of_char c :: nat) < 128) s \<Longrightarrow> to_ascii (from_ascii s) = s"
  by (induction s) (simp_all add: to_ascii_def from_ascii_def unat_of_nat)

lemma hexval_hexdigit: "d < 16 \<Longrightarrow> hexval (hexdigit d) = Some d"
proof -
  have "list_all (\<lambda>d. hexval (hexdigit d) = Some d) [0..<16]"
    by (simp add: upt_rec hexval_def hexdigit_def)
  moreover assume "d < 16"
  ultimately show ?thesis by (simp add: list_all_iff)
qed

lemma from_hex_to_hex: "from_hex (to_hex bs) = bs"
proof (induction bs)
  case Nil
  then show ?case by (simp add: to_hex_def)
next
  case (Cons b bs)
  have h: "unat b div 16 < 16" "unat b mod 16 < 16" using unat_byte [of b] by simp_all
  have "unat b div 16 * 16 + unat b mod 16 = unat b" by simp
  then have w: "(of_nat (unat b div 16 * 16 + unat b mod 16) :: byte) = b"
    by (simp only: byte_of_unat)
  from Cons show ?case
    by (simp add: to_hex_def hexval_hexdigit h w del: of_nat_add of_nat_mult)
qed

lemma lower_hex_char:
  assumes "c \<in> set ''0123456789abcdef''"
  shows "\<exists>d<16. hexval c = Some d \<and> hexdigit d = c"
proof -
  have "list_all (\<lambda>c. \<exists>d<16. hexval c = Some d \<and> hexdigit d = c) ''0123456789abcdef''"
    by (simp add: hexval_def hexdigit_def)
  with assms show ?thesis by (simp only: list_all_iff)
qed

lemma unat_hex_pair:
  assumes "h < 16" "l < 16"
  shows "unat (of_nat (h * 16 + l) :: byte) = h * 16 + l"
proof -
  have "h * 16 + l < 256" using assms by linarith
  then show ?thesis by (simp only: unat_of_nat) simp
qed

lemma to_hex_from_hex:
  "lower_hex s \<Longrightarrow> even (length s) \<Longrightarrow> to_hex (from_hex s) = s"
proof (induction s rule: from_hex.induct)
  case (1 a b cs)
  from "1.prems"(1) obtain h l where h: "h < 16" "hexval a = Some h" "hexdigit h = a"
    and l: "l < 16" "hexval b = Some l" "hexdigit l = b"
    using lower_hex_char [of a] lower_hex_char [of b] by (auto simp add: lower_hex_def)
  have rest: "to_hex (from_hex cs) = cs"
    using 1 h l by (simp add: lower_hex_def)
  have "(h * 16 + l) div 16 = h" "(h * 16 + l) mod 16 = l" using h(1) l(1) by simp_all
  then show ?case
    using rest h l unat_hex_pair [OF h(1) l(1)]
    by (simp add: to_hex_def del: of_nat_add of_nat_mult)
qed (simp_all add: to_hex_def)

lemma hexdigit_lower: "d < 16 \<Longrightarrow> hexdigit d \<in> set ''0123456789abcdef''"
  by (simp add: hexdigit_def nth_mem del: set_simps) 

lemma toString16_lower_hex: "lower_hex (toString16 n)"
proof (induction n rule: toString16.induct)
  case (1 n)
  show ?case
  proof (cases "n < 16")
    case True
    then show ?thesis
      using hexdigit_lower [of n] by (simp add: toString16.simps [of n] lower_hex_def)
  next
    case False
    then show ?thesis
      using 1 hexdigit_lower [of "n mod 16"] by (simp add: toString16.simps [of n] lower_hex_def)
  qed
qed

lemma digitval_hexdigit: "d < 16 \<Longrightarrow> digitval 16 (hexdigit d) = Some d"
  by (simp add: digitval_def hexval_hexdigit)

lemma digit_run_append_digit:
  "digit_run 16 (xs @ [hexdigit d]) = digit_run 16 xs @ (if length (digit_run 16 xs) = length xs \<and> d < 16 then [d] else [])"
  if "d < 16" for d xs
  using that by (induction xs) (auto simp add: digitval_hexdigit split: option.splits)

lemma digit_run_toString16:
  "length (digit_run 16 (toString16 n)) = length (toString16 n)
   \<and> foldl (\<lambda>a d. a * 16 + d) a0 (digit_run 16 (toString16 n)) = a0 * 16 ^ length (toString16 n) + n"
proof (induction n arbitrary: a0 rule: toString16.induct)
  case (1 n)
  show ?case
  proof (cases "n < 16")
    case True
    then show ?thesis
      by (simp add: toString16.simps [of n] digitval_hexdigit)
  next
    case False
    have m: "n mod 16 < 16" by simp
    from False have ih: "length (digit_run 16 (toString16 (n div 16))) = length (toString16 (n div 16))"
      "foldl (\<lambda>a d. a * 16 + d) a0 (digit_run 16 (toString16 (n div 16)))
        = a0 * 16 ^ length (toString16 (n div 16)) + n div 16"
      using "1.IH" [of a0] by simp_all
    have "n div 16 * 16 + n mod 16 = n" by simp
    then show ?thesis
      using False ih m
      by (simp add: toString16.simps [of n] digit_run_append_digit algebra_simps)
  qed
qed

lemma toString16_nonempty: "toString16 n \<noteq> []"
  by (subst toString16.simps) simp

lemma parseInt_hex: "parseInt (''0x'' @ toString16 n) = Some (int n)"
proof -
  have ne: "digit_run 16 (toString16 n) \<noteq> []"
    using digit_run_toString16 [of n 0] toString16_nonempty [of n] by auto
  have v: "foldl (\<lambda>a d. a * 16 + d) 0 (digit_run 16 (toString16 n)) = n"
    using digit_run_toString16 [of n 0] by simp
  show ?thesis
    using ne v by (simp add: parseInt_def is_ws_def Let_def)
qed

lemma is_ascii_append [simp]: "is_ascii (xs @ ys) \<longleftrightarrow> is_ascii xs \<and> is_ascii ys"
  by (simp add: is_ascii_def)

lemma is_ascii_Nil [simp]: "is_ascii []"
  by (simp add: is_ascii_def)

lemma is_ascii_Cons [simp]: "is_ascii (c # s) \<longleftrightarrow> (of_char c :: nat) < 128 \<and> is_ascii s"
  by (simp add: is_ascii_def)

lemma is_ascii_mem: "is_ascii s \<Longrightarrow> c \<in> set s \<Longrightarrow> (of_char c :: nat) < 128"
  by (simp add: is_ascii_def list_all_iff)

lemma is_ascii_concat: "list_all is_ascii xss \<Longrightarrow> is_ascii (concat xss)"
  by (induction xss) simp_all

lemma HEXDIGIT_ascii: "d < 16 \<Longrightarrow> (of_char (HEXDIGIT d) :: nat) < 128"
proof -
  have "list_all (\<lambda>d. (of_char (HEXDIGIT d) :: nat) < 128) [0..<16]"
    by (simp add: upt_rec HEXDIGIT_def)
  moreover assume "d < 16"
  ultimately show ?thesis by (simp add: list_all_iff)
qed

lemma percent_ascii: "is_ascii (percent b)"
proof -
  have "unat b div 16 < 16" "unat b mod 16 < 16" using unat_byte [of b] by simp_all
  then show ?thesis by (simp add: percent_def HEXDIGIT_ascii)
qed

lemma unreserved_ascii: "unreserved c \<Longrightarrow> (of_char c :: nat) < 128"
  by (auto simp add: unreserved_def Let_def)

lemma encode_char_ascii: "is_ascii (if unreserved c then [c] else concat (map percent (utf8 [c])))"
proof (cases "unreserved c")
  case True
  then show ?thesis by (simp add: unreserved_ascii)
next
  case False
  have "is_ascii (concat (map percent (utf8 [c])))"
    by (rule is_ascii_concat) (simp add: list_all_iff percent_ascii)
  with False show ?thesis by simp
qed

lemma encodeURIComponent_ascii: "is_ascii (encodeURIComponent s)"
proof -
  have "list_all is_ascii (map (\<lambda>c. if unreserved c then [c] else concat (map percent (utf8 [c]))) s)"
    by (induction s) (simp_all only: list.map list.pred_inject encode_char_ascii simp_thms)
  then show ?thesis
    unfolding encodeURIComponent_def by (rule is_ascii_concat)
qed

lemma join_ascii: "is_ascii sep \<Longrightarrow> list_all is_ascii xs \<Longrightarrow> is_ascii (join sep xs)"
  by (induction sep xs rule: join.induct) simp_all

lemma serializeMeta_ascii: "is_ascii (serializeMeta obj)"
proof -
  have "is_ascii (encodeURIComponent p @ ''='' @ encodeURIComponent (string_of_value v))" for p v
    by (simp add: encodeURIComponent_ascii)
  then have "list_all is_ascii (sort (map (\<lambda>(p, v). encodeURIComponent p @ ''='' @ encodeURIComponent (string_of_value v)) obj))"
    by (auto simp add: list_all_iff)
  moreover have "is_ascii ''&''" by simp
  ultimately show ?thesis
    by (simp only: serializeMeta_def join_ascii)
qed

lemma nth_truthy_simps:
  "nth_truthy (f0 # fs) 0 = (if f0 = [] then None else Some f0)"
  "nth_truthy (f0 # fs) (Suc i) = nth_truthy fs i"
  "nth_truthy [] i = None"
  by (simp_all add: nth_truthy_def)



lemma from_ascii_empty: "from_ascii s = [] \<longleftrightarrow> s = []"
  by (simp add: from_ascii_def)

lemma parse_meta_serialized:
  "serializeMeta meta \<noteq> [] \<Longrightarrow>
   parse_meta (from_ascii (serializeMeta meta)) = deserializeMeta (serializeMeta meta)"
  using to_ascii_from_ascii [of "serializeMeta meta"] serializeMeta_ascii [of meta]
  by (simp add: parse_meta_def is_ascii_def)

text \<open>The token written by \<open>startLDAT\<close>, with or without a signature field after it, as
  \<open>parseLDAT\<close> reads it.\<close>

lemma read_fields:
  fixes host muid pk :: string and exp :: nat and meta :: js_object
  defines "hb \<equiv> from_ascii host" and "mb \<equiv> from_base64 muid"
    and "pb \<equiv> (if pk \<noteq> [] then from_base64 pk else [])"
    and "eb \<equiv> (if exp \<noteq> 0 then from_hex (toString16 exp) else [])"
    and "xb \<equiv> from_ascii (serializeMeta meta)"
  shows "(if urlBase64 hb = [] then None else Some (to_ascii (from_base64 (urlBase64 hb))))
           = (if host = [] then None else Some (to_ascii (from_ascii host)))"
    and "(if urlBase64 mb = [] then None else Some (urlBase64 (from_base64 (urlBase64 mb))))
           = (if from_base64 muid = [] then None else Some (urlBase64 (from_base64 muid)))"
    and "(if urlBase64 pb = [] then None else Some (to_hex (from_base64 (urlBase64 pb))))
           = (if pk = [] \<or> from_base64 pk = [] then None else Some (to_hex (from_base64 pk)))"
    and "(if urlBase64 eb = [] then Returns None
          else js_bind (parse_ts (from_base64 (urlBase64 eb))) (\<lambda>v. Returns (Some v)))
           = (if exp = 0 \<or> from_hex (toString16 exp) = [] then Returns None
              else js_bind (parse_ts (from_hex (toString16 exp))) (\<lambda>v. Returns (Some v)))"
    and "(if urlBase64 xb = [] then Returns None
          else js_bind (parse_meta (from_base64 (urlBase64 xb))) (\<lambda>m. Returns (Some m)))
           = (if serializeMeta meta = [] then Returns None
              else js_bind (deserializeMeta (serializeMeta meta)) (\<lambda>m. Returns (Some m)))"
    and "terms (startLDAT host muid pk exp meta)
           = urlBase64 hb @ ''.'' @ urlBase64 mb @ ''.'' @ urlBase64 pb @ ''.'' @ urlBase64 eb @ ''.'' @ urlBase64 xb"
  by (simp_all add: hb_def mb_def pb_def eb_def xb_def urlBase64_empty from_base64_urlBase64
      from_ascii_empty parse_meta_serialized startLDAT_def Let_def)



section \<open>Metadata written and read back\<close>



lemma percent_head: "percent b @ rest = CHR ''%'' # tl (percent b @ rest)"
  by (simp add: percent_def)
































section \<open>Properties of keysend and of the weave\<close>

lemma loadLightning_effects:
  "loadLightning e tp ow nc w = (r, w') \<Longrightarrow> effects w' = effects w \<and> clock_ms w' = clock_ms w"
  by (auto simp add: loadLightning_def split: sum.splits option.splits if_splits)

lemma loadRouter_effects:
  "loadRouter e w = (r, w') \<Longrightarrow> effects w' = effects w \<and> clock_ms w' = clock_ms w"
  by (auto simp add: loadRouter_def split: sum.splits option.splits)

lemma keysend_invalid:
  "length (dest opts) \<noteq> 66 \<Longrightarrow>
   keysend e opts ow w = (Some (Inl (Msg ''keysend: invalid pubkey'')), perform (Log_info ''keysend'') w)"
  by (simp add: keysend_def Let_def)

lemma keysend_effects:
  "\<exists>es. effects (snd (keysend e opts ow w)) = effects w @ Log_info ''keysend'' # es
        \<and> keysend_calls es = 0 \<and> (\<forall>x \<in> set es. x \<noteq> Sleep 432 \<and> (\<forall>y. x \<noteq> Log_error y))
        \<and> (length (dest opts) = 66 \<longrightarrow> take 1 es = [Random_bytes 32])"
  by (auto simp add: keysend_def Let_def perform_def keysend_calls_def
      split: sum.splits option.splits prod.splits
      dest!: loadLightning_effects loadRouter_effects)

lemma keysend_clock: "clock_ms (snd (keysend e opts ow w)) = clock_ms w"
  by (auto simp add: keysend_def Let_def perform_def
      split: sum.splits option.splits prod.splits
      dest!: loadLightning_effects loadRouter_effects)

lemma weave_fst:
  "fst (weave e opts ow d ts n i vars w) =
     (let rs = chunk_results e opts ow d ts n i w in
      if list_all settled rs
      then Some (vars\<lparr>success := success vars \<or> list_ex resolved rs,
                      fail := fail vars \<or> list_ex rejected rs,
                      res := last_response (res vars) rs\<rparr>)
      else None)"
proof (induction e opts ow d ts n i vars w rule: weave.induct)
  case (1 e opts ow d ts n i vars w)
  show ?case
  proof (cases "i < n")
    case False
    then show ?thesis
      by (simp add: weave.simps [of e opts ow d ts n i] chunk_results.simps [of e opts ow d ts n i]
          last_response_def)
  next
    case True
    obtain p w' where k: "keysend e (chunk_opts e opts d ts n i) ow w = (p, w')"
      by (cases "keysend e (chunk_opts e opts d ts n i) ow w")
    show ?thesis
    proof (cases p)
      case None
      with True k show ?thesis
        by (simp add: weave.simps [of e opts ow d ts n i] chunk_results.simps [of e opts ow d ts n i]
            settled_def)
    next
      case (Some q)
      show ?thesis
      proof (cases q)
        case (Inl x)
        with True k Some "1.IH"(1) [OF True k [symmetric] Some Inl] show ?thesis
          by (simp add: weave.simps [of e opts ow d ts n i] chunk_results.simps [of e opts ow d ts n i]
              last_response_def Let_def settled_def resolved_def rejected_def)
      next
        case (Inr r)
        with True k Some "1.IH"(2) [OF True k [symmetric] Some Inr] show ?thesis
          by (simp add: weave.simps [of e opts ow d ts n i] chunk_results.simps [of e opts ow d ts n i]
              last_response_def Let_def settled_def resolved_def rejected_def)
      qed
    qed
  qed
qed

lemma chunk_results_length:
  "list_all settled (chunk_results e opts ow d ts n i w) \<Longrightarrow>
   length (chunk_results e opts ow d ts n i w) = n - i"
proof (induction e opts ow d ts n i w rule: chunk_results.induct)
  case (1 e opts ow d ts n i w)
  show ?case
  proof (cases "i < n")
    case False
    then show ?thesis by (simp add: chunk_results.simps [of e opts ow d ts n i])
  next
    case True
    obtain p w' where k: "keysend e (chunk_opts e opts d ts n i) ow w = (p, w')"
      by (cases "keysend e (chunk_opts e opts d ts n i) ow w")
    show ?thesis
    proof (cases p)
      case None
      with True k "1.prems" show ?thesis
        by (simp add: chunk_results.simps [of e opts ow d ts n i] settled_def)
    next
      case (Some q)
      show ?thesis
      proof (cases q)
        case (Inl x)
        with True k Some "1.prems" "1.IH"(1) [OF True k [symmetric] Some Inl] show ?thesis
          by (simp add: chunk_results.simps [of e opts ow d ts n i])
      next
        case (Inr r)
        with True k Some "1.prems" "1.IH"(2) [OF True k [symmetric] Some Inr] show ?thesis
          by (simp add: chunk_results.simps [of e opts ow d ts n i])
      qed
    qed
  qed
qed

lemma keysend_calls_append [simp]: "keysend_calls (xs @ ys) = keysend_calls xs + keysend_calls ys"
  by (simp add: keysend_calls_def)

lemma keysend_adds_one_call:
  "keysend e opts ow w = (p, w') \<Longrightarrow> keysend_calls (effects w') = keysend_calls (effects w) + 1"
  using keysend_effects [of e opts ow w] by (auto simp add: keysend_calls_def)

lemma weave_calls:
  "keysend_calls (effects (snd (weave e opts ow d ts n i vars w))) =
     keysend_calls (effects w) + length (chunk_results e opts ow d ts n i w)"
proof (induction e opts ow d ts n i vars w rule: weave.induct)
  case (1 e opts ow d ts n i vars w)
  show ?case
  proof (cases "i < n")
    case False
    then show ?thesis
      by (simp add: weave.simps [of e opts ow d ts n i] chunk_results.simps [of e opts ow d ts n i])
  next
    case True
    obtain p w' where k: "keysend e (chunk_opts e opts d ts n i) ow w = (p, w')"
      by (cases "keysend e (chunk_opts e opts d ts n i) ow w")
    note c = keysend_adds_one_call [OF k]
    show ?thesis
    proof (cases p)
      case None
      with True k c show ?thesis
        by (simp add: weave.simps [of e opts ow d ts n i] chunk_results.simps [of e opts ow d ts n i])
    next
      case (Some q)
      show ?thesis
      proof (cases q)
        case (Inl x)
        with True k c Some "1.IH"(1) [OF True k [symmetric] Some Inl] show ?thesis
          by (simp add: weave.simps [of e opts ow d ts n i] chunk_results.simps [of e opts ow d ts n i]
              perform_def keysend_calls_def)
      next
        case (Inr r)
        with True k c Some "1.IH"(2) [OF True k [symmetric] Some Inr] show ?thesis
          by (simp add: weave.simps [of e opts ow d ts n i] chunk_results.simps [of e opts ow d ts n i]
              perform_def sleep_def keysend_calls_def)
      qed
    qed
  qed
qed

lemma keysendMessage_woven:
  assumes "data opts = Some d" "MAX_MSG_LENGTH \<le> length d"
  shows "keysendMessage e opts ow w =
     (case weave e opts ow d (clock_ms w) (ceil_div (length d) MAX_MSG_LENGTH) 0
             \<lparr>success = False, fail = False, res = None\<rparr> (perform (Log_info ''keysendMessage'') w) of
        (None, w') \<Rightarrow> (None, w')
      | (Some vars, w') \<Rightarrow>
          if success vars \<and> \<not> fail vars then (Some (Inr (res vars)), w')
          else (Some (Inl (Msg ''fail'')), w'))"
proof -
  from assms have "d \<noteq> []" by (auto simp add: MAX_MSG_LENGTH_def)
  with assms show ?thesis
    by (simp add: keysendMessage_def Let_def perform_def)
qed

lemma ceil_div_pos: "0 < b \<Longrightarrow> b \<le> a \<Longrightarrow> 0 < ceil_div a b"
  by (simp add: ceil_div_def div_greater_zero_iff)

lemma last_response_last:
  "rs \<noteq> [] \<Longrightarrow> last rs = Some (Inr r) \<Longrightarrow> last_response a rs = Some r"
  by (cases rs rule: rev_cases) (simp_all add: last_response_def)

text \<open>
  Claim C1.  For a payload of at least 972 code units, let \<open>rs\<close> be the outcomes of the
  chunk keysends in the order of the calls.  \<open>keysendMessage\<close> settles exactly when every
  chunk keysend does; it then resolves, with the response of the last chunk, if and only
  if some chunk resolved and none was rejected, and is rejected with \<open>fail\<close> otherwise.
  A rejected chunk does not end the loop: every chunk is handed to \<open>keysend\<close>, so that a
  weave with a rejected chunk is rejected although all \<open>n\<close> keysend calls were made.
\<close>

theorem weave_aggregate_result:
  assumes "data opts = Some d" and "MAX_MSG_LENGTH \<le> length d"
    and "n = ceil_div (length d) MAX_MSG_LENGTH"
    and "rs = chunk_results e opts ow d (clock_ms w) n 0 (perform (Log_info ''keysendMessage'') w)"
  shows "fst (keysendMessage e opts ow w) =
           (if list_all settled rs
            then Some (if list_ex resolved rs \<and> \<not> list_ex rejected rs
                       then Inr (last_response None rs) else Inl (Msg ''fail''))
            else None)
       \<and> keysend_calls (effects (snd (keysendMessage e opts ow w))) = keysend_calls (effects w) + length rs
       \<and> (list_all settled rs \<longrightarrow> length rs = n \<and> 0 < n)
       \<and> (list_all resolved rs \<longrightarrow> (\<exists>r. last rs = Some (Inr r) \<and> fst (keysendMessage e opts ow w) = Some (Inr (Some r))))
       \<and> (list_all settled rs \<and> list_ex rejected rs \<longrightarrow>
            fst (keysendMessage e opts ow w) = Some (Inl (Msg ''fail''))
            \<and> keysend_calls (effects (snd (keysendMessage e opts ow w))) = keysend_calls (effects w) + n)"
proof -
  let ?w1 = "perform (Log_info ''keysendMessage'') w"
  let ?init = "\<lparr>success = False, fail = False, res = None\<rparr>"
  let ?wv = "weave e opts ow d (clock_ms w) n 0 ?init ?w1"
  have km: "keysendMessage e opts ow w =
     (case ?wv of (None, w') \<Rightarrow> (None, w')
      | (Some vars, w') \<Rightarrow>
          if success vars \<and> \<not> fail vars then (Some (Inr (res vars)), w')
          else (Some (Inl (Msg ''fail'')), w'))"
    using keysendMessage_woven [OF assms(1,2)] assms(3) by simp
  have f: "fst ?wv = (if list_all settled rs
      then Some \<lparr>success = list_ex resolved rs, fail = list_ex rejected rs, res = last_response None rs\<rparr>
      else None)"
    using weave_fst [of e opts ow d "clock_ms w" n 0 ?init ?w1] assms(4) by (simp add: Let_def)
  have A: "fst (keysendMessage e opts ow w) =
           (if list_all settled rs
            then Some (if list_ex resolved rs \<and> \<not> list_ex rejected rs
                       then Inr (last_response None rs) else Inl (Msg ''fail''))
            else None)"
    using f by (cases ?wv) (auto simp add: km split: option.splits if_splits)
  have s: "snd (keysendMessage e opts ow w) = snd ?wv"
    by (cases ?wv) (auto simp add: km split: option.splits)
  have B: "keysend_calls (effects (snd (keysendMessage e opts ow w))) = keysend_calls (effects w) + length rs"
    using weave_calls [of e opts ow d "clock_ms w" n 0 ?init ?w1] assms(4)
    by (simp add: s perform_def keysend_calls_def)
  have npos: "0 < n"
    using assms(2,3) by (simp add: ceil_div_pos MAX_MSG_LENGTH_def)
  have C: "list_all settled rs \<longrightarrow> length rs = n \<and> 0 < n"
    using chunk_results_length [of e opts ow d "clock_ms w" n 0 ?w1] assms(4) npos by simp
  have res_settled: "list_all resolved rs \<Longrightarrow> list_all settled rs"
    by (induction rs) (auto simp add: resolved_def settled_def split: option.splits)
  have D: "list_all resolved rs \<longrightarrow> (\<exists>r. last rs = Some (Inr r) \<and> fst (keysendMessage e opts ow w) = Some (Inr (Some r)))"
  proof
    assume ar: "list_all resolved rs"
    then have st: "list_all settled rs" by (rule res_settled)
    with C npos have ne: "rs \<noteq> []" by auto
    with ar have "resolved (last rs)" by (simp add: list_all_iff)
    then obtain r where l: "last rs = Some (Inr r)"
      by (auto simp add: resolved_def split: option.splits sum.splits)
    have ex: "list_ex resolved rs" using ar ne by (cases rs) (auto)
    have nr: "\<not> list_ex rejected rs" using ar
      by (auto simp add: list_all_iff list_ex_iff resolved_def rejected_def split: option.splits sum.splits)
    show "\<exists>r. last rs = Some (Inr r) \<and> fst (keysendMessage e opts ow w) = Some (Inr (Some r))"
      using A st ex nr l last_response_last [OF ne l] by auto
  qed
  have E: "list_all settled rs \<and> list_ex rejected rs \<longrightarrow>
            fst (keysendMessage e opts ow w) = Some (Inl (Msg ''fail''))
            \<and> keysend_calls (effects (snd (keysendMessage e opts ow w))) = keysend_calls (effects w) + n"
    using A B C by auto
  from A B C D E show ?thesis by blast
qed

lemma toString10_digit: "n < 10 \<Longrightarrow> toString10 n = [hexdigit n]"
  by (simp add: toString10.simps [of n])

lemma chunk_data_0_1: "chunk_data ts 0 1 m = toString10 ts @ ''_0_1_'' @ m"
  by (simp add: chunk_data_def toString10_digit hexdigit_def)

lemma chunk_data_0_2: "chunk_data ts 0 2 m = toString10 ts @ ''_0_2_'' @ m"
  by (simp add: chunk_data_def toString10_digit hexdigit_def)

lemma chunk_data_1_2: "chunk_data ts 1 2 m = toString10 ts @ ''_1_2_'' @ m"
  by (simp add: chunk_data_def toString10_digit hexdigit_def)

lemma ceil_div_multiple: "0 < b \<Longrightarrow> ceil_div (k * b) b = k"
proof -
  assume b: "0 < b"
  have "k * b + b - 1 = (b - 1) + k * b" using b by simp
  then have "(k * b + b - 1) div b = ((b - 1) + k * b) div b" by (rule arg_cong)
  also have "\<dots> = k + (b - 1) div b" using b by (simp only: div_mult_self1)
  also have "\<dots> = k" using b by simp
  finally show ?thesis by (simp only: ceil_div_def)
qed

lemma ceil_div_split_width: "0 < k \<Longrightarrow> ceil_div (k * b) k = b"
  using ceil_div_multiple [of k b] by (simp add: mult.commute)

lemma keysendMessage_short:
  assumes "data opts = Some d" "d \<noteq> []" "length d < 972"
  shows "keysendMessage e opts ow w =
     (case keysend e opts ow (perform (Log_info ''keysendMessage'') w) of
        (None, w') \<Rightarrow> (None, w')
      | (Some (Inr r), w') \<Rightarrow> (Some (Inr (Some r)), w')
      | (Some (Inl x), w') \<Rightarrow> (Some (Inl x), w'))"
  using assms by (simp add: keysendMessage_def Let_def MAX_MSG_LENGTH_def)

lemma weave_done: "\<not> i < n \<Longrightarrow> weave e opts ow d ts n i vars w = (Some vars, w)"
  by (subst weave.simps) simp

lemma weave_step:
  "i < n \<Longrightarrow> weave e opts ow d ts n i vars w =
     (case keysend e (chunk_opts e opts d ts n i) ow w of
        (None, w') \<Rightarrow> (None, w')
      | (Some (Inr r), w') \<Rightarrow>
          weave e opts ow d ts n (Suc i) (vars\<lparr>res := Some r, success := True\<rparr>) (sleep 432 w')
      | (Some (Inl x), w') \<Rightarrow>
          weave e opts ow d ts n (Suc i) (vars\<lparr>fail := True\<rparr>) (perform (Log_error x) w'))"
  by (subst weave.simps) (simp only: Suc_eq_plus1 if_True)

lemma keysendMessage_972:
  assumes "data opts = Some d" "length d = 972"
  shows "keysendMessage e opts ow w =
     (case keysend e (opts\<lparr>data := Some (toString10 (clock_ms w) @ ''_0_1_'' @ d)\<rparr>) ow
             (perform (Log_info ''keysendMessage'') w) of
        (None, w') \<Rightarrow> (None, w')
      | (Some (Inr r), w') \<Rightarrow> (Some (Inr (Some r)), sleep 432 w')
      | (Some (Inl x), w') \<Rightarrow> (Some (Inl (Msg ''fail'')), perform (Log_error x) w'))"
proof -
  let ?w1 = "perform (Log_info ''keysendMessage'') w"
  let ?c = "opts\<lparr>data := Some (toString10 (clock_ms w) @ ''_0_1_'' @ d)\<rparr>"
  have n: "ceil_div (length d) MAX_MSG_LENGTH = Suc 0"
    using assms(2) by (simp add: ceil_div_def MAX_MSG_LENGTH_def)
  have c: "chunk_opts e opts d (clock_ms w) (Suc 0) 0 = ?c"
    using assms(2) by (simp add: chunk_opts_def chunk_m_def ceil_div_def substring_def chunk_data_def
        toString10_digit hexdigit_def)
  have km: "keysendMessage e opts ow w =
     (case weave e opts ow d (clock_ms w) (Suc 0) 0 \<lparr>success = False, fail = False, res = None\<rparr> ?w1 of
        (None, w') \<Rightarrow> (None, w')
      | (Some vars, w') \<Rightarrow>
          if success vars \<and> \<not> fail vars then (Some (Inr (res vars)), w')
          else (Some (Inl (Msg ''fail'')), w'))"
    using keysendMessage_woven [OF assms(1), of e ow w] assms(2) n by (simp add: MAX_MSG_LENGTH_def)
  obtain p w' where k: "keysend e ?c ow ?w1 = (p, w')"
    by (cases "keysend e ?c ow ?w1")
  show ?thesis
  proof (cases p)
    case None
    with k show ?thesis
      by (simp add: km weave_step c)
  next
    case (Some q)
    with k show ?thesis
      by (cases q) (simp_all add: km weave_step weave_done c)
  qed
qed

lemma keysendMessage_973:
  assumes "data opts = Some d" "length d = 973"
  shows "keysendMessage e opts ow w =
     (let ts = toString10 (clock_ms w);
          c0 = opts\<lparr>amt := min_sat_amount e, data := Some (ts @ ''_0_2_'' @ take 487 d)\<rparr>;
          c1 = opts\<lparr>data := Some (ts @ ''_1_2_'' @ drop 487 d)\<rparr>
      in case keysend e c0 ow (perform (Log_info ''keysendMessage'') w) of
           (None, w') \<Rightarrow> (None, w')
         | (Some (Inr r0), w') \<Rightarrow>
             (case keysend e c1 ow (sleep 432 w') of
                (None, w'') \<Rightarrow> (None, w'')
              | (Some (Inr r1), w'') \<Rightarrow> (Some (Inr (Some r1)), sleep 432 w'')
              | (Some (Inl x1), w'') \<Rightarrow> (Some (Inl (Msg ''fail'')), perform (Log_error x1) w''))
         | (Some (Inl x0), w') \<Rightarrow>
             (case keysend e c1 ow (perform (Log_error x0) w') of
                (None, w'') \<Rightarrow> (None, w'')
              | (Some (Inr r1), w'') \<Rightarrow> (Some (Inl (Msg ''fail'')), sleep 432 w'')
              | (Some (Inl x1), w'') \<Rightarrow> (Some (Inl (Msg ''fail'')), perform (Log_error x1) w'')))"
proof -
  let ?w1 = "perform (Log_info ''keysendMessage'') w"
  let ?ts = "toString10 (clock_ms w)"
  let ?c0 = "opts\<lparr>amt := min_sat_amount e, data := Some (?ts @ ''_0_2_'' @ take 487 d)\<rparr>"
  let ?c1 = "opts\<lparr>data := Some (?ts @ ''_1_2_'' @ drop 487 d)\<rparr>"
  have n: "ceil_div (length d) MAX_MSG_LENGTH = 2"
    using assms(2) by (simp add: ceil_div_def MAX_MSG_LENGTH_def)
  have c0: "chunk_opts e opts d (clock_ms w) 2 0 = ?c0"
    using assms(2) by (simp add: chunk_opts_def chunk_m_def ceil_div_def substring_def chunk_data_def
        toString10_digit hexdigit_def)
  have c1: "chunk_opts e opts d (clock_ms w) 2 (Suc 0) = ?c1"
    using assms(2) by (simp add: chunk_opts_def chunk_m_def ceil_div_def substring_def chunk_data_def
        toString10_digit hexdigit_def)
  have km: "keysendMessage e opts ow w =
     (case weave e opts ow d (clock_ms w) 2 0 \<lparr>success = False, fail = False, res = None\<rparr> ?w1 of
        (None, w') \<Rightarrow> (None, w')
      | (Some vars, w') \<Rightarrow>
          if success vars \<and> \<not> fail vars then (Some (Inr (res vars)), w')
          else (Some (Inl (Msg ''fail'')), w'))"
    using keysendMessage_woven [OF assms(1), of e ow w] assms(2) n by (simp add: MAX_MSG_LENGTH_def)
  obtain p w' where k: "keysend e ?c0 ow ?w1 = (p, w')"
    by (cases "keysend e ?c0 ow ?w1")
  show ?thesis
  proof (cases p)
    case None
    with k show ?thesis
      by (simp add: km weave_step c0 Let_def)
  next
    case (Some q)
    show ?thesis
    proof (cases q)
      case (Inl x0)
      obtain p1 w'' where k1: "keysend e ?c1 ow (perform (Log_error x0) w') = (p1, w'')"
        by (cases "keysend e ?c1 ow (perform (Log_error x0) w')")
      show ?thesis
      proof (cases p1)
        case None
        with k Some Inl k1 show ?thesis by (simp add: km weave_step c0 c1 Let_def)
      next
        case (Some q1)
        with k \<open>p = Some q\<close> Inl k1 show ?thesis
          by (cases q1) (simp_all add: km weave_step weave_done c0 c1 Let_def)
      qed
    next
      case (Inr r0)
      obtain p1 w'' where k1: "keysend e ?c1 ow (sleep 432 w') = (p1, w'')"
        by (cases "keysend e ?c1 ow (sleep 432 w')")
      show ?thesis
      proof (cases p1)
        case None
        with k Some Inr k1 show ?thesis by (simp add: km weave_step c0 c1 Let_def)
      next
        case (Some q1)
        with k \<open>p = Some q\<close> Inr k1 show ?thesis
          by (cases q1) (simp_all add: km weave_step weave_done c0 c1 Let_def)
      qed
    qed
  qed
qed

lemmas example_defs = example_env_def example_opts_def example_world_def

lemmas keysend_eval = keysend_def Let_def perform_def loadLightning_def IS_GREENLIGHT_def truthy_def
  split_js_def nth_truthy_def keysend_options_def greenlight_callback_def

lemma keysendMessage_calls:
  assumes "data opts = Some d" and "MAX_MSG_LENGTH \<le> length d"
  shows "keysend_calls (effects (snd (keysendMessage e opts ow w))) =
     keysend_calls (effects w) +
     length (chunk_results e opts ow d (clock_ms w) (ceil_div (length d) MAX_MSG_LENGTH) 0
               (perform (Log_info ''keysendMessage'') w))"
proof -
  let ?wv = "weave e opts ow d (clock_ms w) (ceil_div (length d) MAX_MSG_LENGTH) 0
               \<lparr>success = False, fail = False, res = None\<rparr> (perform (Log_info ''keysendMessage'') w)"
  have "snd (keysendMessage e opts ow w) = snd ?wv"
    by (cases ?wv) (auto simp add: keysendMessage_woven [OF assms] split: option.splits)
  then show ?thesis
    using weave_calls [of e opts ow d "clock_ms w" "ceil_div (length d) MAX_MSG_LENGTH" 0
        "\<lparr>success = False, fail = False, res = None\<rparr>" "perform (Log_info ''keysendMessage'') w"]
    by (simp add: perform_def keysend_calls_def)
qed

lemma chunk_m_multiple:
  assumes "0 < k" "length d = k * 972" "i < k"
  shows "chunk_m d k i = take 972 (drop (i * 972) d)"
  using assms ceil_div_split_width [of k 972]
  by (simp add: chunk_m_def substring_def Let_def)

lemma utf8_length:
  "length (utf8 d) = length d + length (filter (\<lambda>c. 128 \<le> (of_char c :: nat)) d)"
  by (induction d) (simp_all add: utf8_def Let_def)

lemma utf8_length_ascii: "is_ascii d \<Longrightarrow> length (utf8 d) = length d"
  by (induction d) (simp_all add: utf8_def)

lemma keysendMessage_one_call:
  assumes "data opts = Some d" and "d \<noteq> []" and "length d \<le> 972"
  shows "keysend_calls (effects (snd (keysendMessage e opts ow w))) = keysend_calls (effects w) + 1"
proof (cases "length d < 972")
  case True
  obtain p w' where k: "keysend e opts ow (perform (Log_info ''keysendMessage'') w) = (p, w')"
    by (cases "keysend e opts ow (perform (Log_info ''keysendMessage'') w)")
  have "snd (keysendMessage e opts ow w) = w'"
    using keysendMessage_short [OF assms(1,2) True, of e ow w] k
    by (auto split: option.splits sum.splits)
  then show ?thesis
    using keysend_adds_one_call [OF k] by (simp add: perform_def keysend_calls_def)
next
  case False
  with assms(3) have l: "length d = 972" by simp
  then have long: "MAX_MSG_LENGTH \<le> length d" by (simp add: MAX_MSG_LENGTH_def)
  have n: "ceil_div (length d) MAX_MSG_LENGTH = 1"
    using ceil_div_multiple [of 972 1] by (simp add: l MAX_MSG_LENGTH_def)
  have "chunk_results e opts ow d (clock_ms w) 1 1 w1 = []" for w1
    by (subst chunk_results.simps) simp
  then have "length (chunk_results e opts ow d (clock_ms w) 1 0 (perform (Log_info ''keysendMessage'') w)) = 1"
    by (subst chunk_results.simps) (simp split: prod.splits option.splits sum.splits)
  then show ?thesis
    using keysendMessage_calls [OF assms(1) long, of e ow w] by (simp add: n)
qed

text \<open>
  Claim C4, as amended.  The threshold is tested on \<open>opts.data.length\<close>, which counts code
  units, and the payload is sent as its UTF-8 bytes, of which there are at least as many
  and exactly as many when the payload is ASCII.  A payload that is not empty and
  shorter than 972 bytes, or shorter than 972 code units, is handed to one \<open>keysend\<close> call
  with the options as they are.  A payload of exactly 972 bytes is sent with one keysend
  call; one of exactly 972 code units is sent as chunk 0 of 1.  A payload of 973 code
  units is sent as two chunks, of 487 and 486 code units; both headers carry the time read
  before the loop, the index of the chunk and the count 2, and the second chunk is sent
  whatever the first one reports.  A payload of \<open>k * 972\<close> code units, \<open>k\<close> positive, is
  split into \<open>k\<close> chunks of 972 code units, each handed to \<open>keysend\<close> unless an earlier
  call never settles.
\<close>

theorem keysendMessage_chunking:
  assumes "data opts = Some d"
  shows "length d \<le> length (utf8 d) \<and> (is_ascii d \<longrightarrow> length (utf8 d) = length d)
       \<and> (d \<noteq> [] \<and> length (utf8 d) < 972 \<longrightarrow>
            keysendMessage e opts ow w =
              (case keysend e opts ow (perform (Log_info ''keysendMessage'') w) of
                 (None, w') \<Rightarrow> (None, w')
               | (Some (Inr r), w') \<Rightarrow> (Some (Inr (Some r)), w')
               | (Some (Inl x), w') \<Rightarrow> (Some (Inl x), w')))
       \<and> (length (utf8 d) = 972 \<longrightarrow>
            keysend_calls (effects (snd (keysendMessage e opts ow w))) = keysend_calls (effects w) + 1)
       \<and> (d \<noteq> [] \<and> length d < 972 \<longrightarrow>
            keysendMessage e opts ow w =
              (case keysend e opts ow (perform (Log_info ''keysendMessage'') w) of
                 (None, w') \<Rightarrow> (None, w')
               | (Some (Inr r), w') \<Rightarrow> (Some (Inr (Some r)), w')
               | (Some (Inl x), w') \<Rightarrow> (Some (Inl x), w')))
       \<and> (length d = 972 \<longrightarrow>
            keysendMessage e opts ow w =
              (case keysend e (opts\<lparr>data := Some (toString10 (clock_ms w) @ ''_0_1_'' @ d)\<rparr>) ow
                      (perform (Log_info ''keysendMessage'') w) of
                 (None, w') \<Rightarrow> (None, w')
               | (Some (Inr r), w') \<Rightarrow> (Some (Inr (Some r)), sleep 432 w')
               | (Some (Inl x), w') \<Rightarrow> (Some (Inl (Msg ''fail'')), perform (Log_error x) w')))
       \<and> (length d = 973 \<longrightarrow>
            keysendMessage e opts ow w =
              (let ts = toString10 (clock_ms w);
                   c0 = opts\<lparr>amt := min_sat_amount e, data := Some (ts @ ''_0_2_'' @ take 487 d)\<rparr>;
                   c1 = opts\<lparr>data := Some (ts @ ''_1_2_'' @ drop 487 d)\<rparr>
               in case keysend e c0 ow (perform (Log_info ''keysendMessage'') w) of
                    (None, w') \<Rightarrow> (None, w')
                  | (Some (Inr r0), w') \<Rightarrow>
                      (case keysend e c1 ow (sleep 432 w') of
                         (None, w'') \<Rightarrow> (None, w'')
                       | (Some (Inr r1), w'') \<Rightarrow> (Some (Inr (Some r1)), sleep 432 w'')
                       | (Some (Inl x1), w'') \<Rightarrow> (Some (Inl (Msg ''fail'')), perform (Log_error x1) w''))
                  | (Some (Inl x0), w') \<Rightarrow>
                      (case keysend e c1 ow (perform (Log_error x0) w') of
                         (None, w'') \<Rightarrow> (None, w'')
                       | (Some (Inr r1), w'') \<Rightarrow> (Some (Inl (Msg ''fail'')), sleep 432 w'')
                       | (Some (Inl x1), w'') \<Rightarrow> (Some (Inl (Msg ''fail'')), perform (Log_error x1) w''))))
       \<and> (0 < k \<and> length d = k * 972 \<longrightarrow>
            ceil_div (length d) MAX_MSG_LENGTH = k
            \<and> (\<forall>i<k. chunk_opts e opts d (clock_ms w) k i =
                  opts\<lparr>amt := (if i = k - 1 then amt opts else min_sat_amount e),
                       data := Some (chunk_data (clock_ms w) i k (take 972 (drop (i * 972) d)))\<rparr>)
            \<and> keysend_calls (effects (snd (keysendMessage e opts ow w))) =
                keysend_calls (effects w) +
                length (chunk_results e opts ow d (clock_ms w) k 0 (perform (Log_info ''keysendMessage'') w))
            \<and> (list_all settled (chunk_results e opts ow d (clock_ms w) k 0
                                   (perform (Log_info ''keysendMessage'') w)) \<longrightarrow>
                keysend_calls (effects (snd (keysendMessage e opts ow w))) = keysend_calls (effects w) + k))"
proof (intro conjI impI)
  show le: "length d \<le> length (utf8 d)"
    by (simp add: utf8_length)
  {
    assume "is_ascii d"
    then show "length (utf8 d) = length d" by (rule utf8_length_ascii)
  }
  {
    assume "d \<noteq> [] \<and> length (utf8 d) < 972"
    with le have "d \<noteq> []" "length d < 972" by simp_all
    then show "keysendMessage e opts ow w =
      (case keysend e opts ow (perform (Log_info ''keysendMessage'') w) of
         (None, w') \<Rightarrow> (None, w')
       | (Some (Inr r), w') \<Rightarrow> (Some (Inr (Some r)), w')
       | (Some (Inl x), w') \<Rightarrow> (Some (Inl x), w'))"
      by (rule keysendMessage_short [OF assms])
  }
  {
    assume b: "length (utf8 d) = 972"
    then have "d \<noteq> []" by (auto simp add: utf8_def)
    moreover from b le have "length d \<le> 972" by simp
    ultimately show "keysend_calls (effects (snd (keysendMessage e opts ow w))) = keysend_calls (effects w) + 1"
      by (rule keysendMessage_one_call [OF assms])
  }
next
  assume "d \<noteq> [] \<and> length d < 972"
  then show "keysendMessage e opts ow w =
      (case keysend e opts ow (perform (Log_info ''keysendMessage'') w) of
         (None, w') \<Rightarrow> (None, w')
       | (Some (Inr r), w') \<Rightarrow> (Some (Inr (Some r)), w')
       | (Some (Inl x), w') \<Rightarrow> (Some (Inl x), w'))"
    using keysendMessage_short [OF assms] by simp
next
  assume "length d = 972"
  then show "keysendMessage e opts ow w =
      (case keysend e (opts\<lparr>data := Some (toString10 (clock_ms w) @ ''_0_1_'' @ d)\<rparr>) ow
              (perform (Log_info ''keysendMessage'') w) of
         (None, w') \<Rightarrow> (None, w')
       | (Some (Inr r), w') \<Rightarrow> (Some (Inr (Some r)), sleep 432 w')
       | (Some (Inl x), w') \<Rightarrow> (Some (Inl (Msg ''fail'')), perform (Log_error x) w'))"
    by (rule keysendMessage_972 [OF assms])
next
  assume "length d = 973"
  then show "keysendMessage e opts ow w =
      (let ts = toString10 (clock_ms w);
           c0 = opts\<lparr>amt := min_sat_amount e, data := Some (ts @ ''_0_2_'' @ take 487 d)\<rparr>;
           c1 = opts\<lparr>data := Some (ts @ ''_1_2_'' @ drop 487 d)\<rparr>
       in case keysend e c0 ow (perform (Log_info ''keysendMessage'') w) of
            (None, w') \<Rightarrow> (None, w')
          | (Some (Inr r0), w') \<Rightarrow>
              (case keysend e c1 ow (sleep 432 w') of
                 (None, w'') \<Rightarrow> (None, w'')
               | (Some (Inr r1), w'') \<Rightarrow> (Some (Inr (Some r1)), sleep 432 w'')
               | (Some (Inl x1), w'') \<Rightarrow> (Some (Inl (Msg ''fail'')), perform (Log_error x1) w''))
          | (Some (Inl x0), w') \<Rightarrow>
              (case keysend e c1 ow (perform (Log_error x0) w') of
                 (None, w'') \<Rightarrow> (None, w'')
               | (Some (Inr r1), w'') \<Rightarrow> (Some (Inl (Msg ''fail'')), sleep 432 w'')
               | (Some (Inl x1), w'') \<Rightarrow> (Some (Inl (Msg ''fail'')), perform (Log_error x1) w'')))"
    by (rule keysendMessage_973 [OF assms])
next
  assume k: "0 < k \<and> length d = k * 972"
  then show n: "ceil_div (length d) MAX_MSG_LENGTH = k"
    by (simp add: MAX_MSG_LENGTH_def ceil_div_multiple)
  from k have long: "MAX_MSG_LENGTH \<le> length d"
    by (simp add: MAX_MSG_LENGTH_def)
  show "\<forall>i<k. chunk_opts e opts d (clock_ms w) k i =
          opts\<lparr>amt := (if i = k - 1 then amt opts else min_sat_amount e),
               data := Some (chunk_data (clock_ms w) i k (take 972 (drop (i * 972) d)))\<rparr>"
    using k by (simp add: chunk_opts_def chunk_m_multiple)
  show calls: "keysend_calls (effects (snd (keysendMessage e opts ow w))) =
      keysend_calls (effects w) +
      length (chunk_results e opts ow d (clock_ms w) k 0 (perform (Log_info ''keysendMessage'') w))"
    using keysendMessage_calls [OF assms long, of e ow w] n by simp
  assume "list_all settled (chunk_results e opts ow d (clock_ms w) k 0
                                   (perform (Log_info ''keysendMessage'') w))"
  then show "keysend_calls (effects (snd (keysendMessage e opts ow w))) = keysend_calls (effects w) + k"
    using calls chunk_results_length [of e opts ow d "clock_ms w" k 0 "perform (Log_info ''keysendMessage'') w"]
    by simp
qed

lemmas weave_eval = chunk_results.simps chunk_opts_def sleep_def settled_def resolved_def rejected_def
  ceil_div_def MAX_MSG_LENGTH_def keysend_calls_def

theorem keysendMessage_chunking_witness:
  "fst (keysendMessage example_env (example_opts ''hello'') None example_world)
     = Some (Inr (Some (Send_response \<lparr>sr_payment_error = [], sr_payment_preimage = [],
                                        sr_payment_hash = replicate 32 0\<rparr>)))
   \<and> fst (keysendMessage example_env (example_opts (replicate 972 (CHR ''a''))) None example_world)
     = Some (Inr (Some (Send_response \<lparr>sr_payment_error = [], sr_payment_preimage = [],
                                        sr_payment_hash = replicate 32 0\<rparr>)))
   \<and> fst (keysendMessage example_env (example_opts (replicate 973 (CHR ''a''))) None example_world)
     = Some (Inl (Msg ''fail''))
   \<and> keysend_calls (effects (snd (keysendMessage example_env (example_opts (replicate 1944 (CHR ''a'')))
                                    None example_world))) = 2
   \<and> is_ascii (replicate 972 (CHR ''a''))
   \<and> length (utf8 (replicate 972 (CHR ''a''))) = 972
   \<and> keysend_calls (effects (snd (keysendMessage example_env (example_opts (replicate 972 (CHR ''a'')))
                                    None example_world))) = 1
   \<and> length (utf8 (replicate 485 (CHR 0xE9))) = 970
   \<and> snd (keysendMessage example_env (example_opts (replicate 485 (CHR 0xE9))) None example_world)
     = snd (keysend example_env (example_opts (replicate 485 (CHR 0xE9))) None
              (perform (Log_info ''keysendMessage'') example_world))"
proof -
  have a: "fst (keysendMessage example_env (example_opts ''hello'') None example_world)
     = Some (Inr (Some (Send_response \<lparr>sr_payment_error = [], sr_payment_preimage = [],
                                        sr_payment_hash = replicate 32 0\<rparr>)))
   \<and> fst (keysendMessage example_env (example_opts (replicate 972 (CHR ''a''))) None example_world)
     = Some (Inr (Some (Send_response \<lparr>sr_payment_error = [], sr_payment_preimage = [],
                                        sr_payment_hash = replicate 32 0\<rparr>)))
   \<and> fst (keysendMessage example_env (example_opts (replicate 973 (CHR ''a''))) None example_world)
     = Some (Inl (Msg ''fail''))
   \<and> keysend_calls (effects (snd (keysendMessage example_env (example_opts (replicate 1944 (CHR ''a'')))
                                    None example_world))) = 2"
    using keysendMessage_chunking [of "example_opts ''hello''" "''hello''" example_env None example_world 1,
        THEN conjunct2, THEN conjunct2, THEN conjunct2, THEN conjunct2]
      keysendMessage_chunking [of "example_opts (replicate 972 (CHR ''a''))" "replicate 972 (CHR ''a'')"
        example_env None example_world 1, THEN conjunct2, THEN conjunct2, THEN conjunct2, THEN conjunct2]
      keysendMessage_chunking [of "example_opts (replicate 973 (CHR ''a''))" "replicate 973 (CHR ''a'')"
        example_env None example_world 1, THEN conjunct2, THEN conjunct2, THEN conjunct2, THEN conjunct2]
      keysendMessage_chunking [of "example_opts (replicate 1944 (CHR ''a''))" "replicate 1944 (CHR ''a'')"
        example_env None example_world 2, THEN conjunct2, THEN conjunct2, THEN conjunct2, THEN conjunct2]
    by (simp add: example_defs keysend_eval weave_eval)
  have d: "data (example_opts (replicate 972 (CHR ''a''))) = Some (replicate 972 (CHR ''a''))"
    "data (example_opts (replicate 485 (CHR 0xE9))) = Some (replicate 485 (CHR 0xE9))"
    by (simp_all add: example_opts_def)
  have asc: "is_ascii (replicate 972 (CHR ''a''))"
    by (simp add: is_ascii_def list_all_iff)
  have z: "keysend_calls (effects example_world) = 0"
    by (simp add: example_world_def keysend_calls_def)
  note th = keysendMessage_chunking [OF d(1), of example_env None example_world 1]
  have b1: "length (utf8 (replicate 972 (CHR ''a''))) = 972"
    using th [THEN conjunct2, THEN conjunct1] asc by simp
  have b2: "keysend_calls (effects (snd (keysendMessage example_env (example_opts (replicate 972 (CHR ''a'')))
                                    None example_world))) = 1"
    using th [THEN conjunct2, THEN conjunct2, THEN conjunct2, THEN conjunct1] b1 z by simp
  note b = b1 b2
  have u: "length (utf8 (replicate 485 (CHR 0xE9))) = 970"
    by (simp add: utf8_length)
  have ne: "replicate 485 (CHR 0xE9) \<noteq> []" by simp
  have c: "snd (keysendMessage example_env (example_opts (replicate 485 (CHR 0xE9))) None example_world)
     = snd (keysend example_env (example_opts (replicate 485 (CHR 0xE9))) None
              (perform (Log_info ''keysendMessage'') example_world))"
    using keysendMessage_chunking [OF d(2), of example_env None example_world 1,
        THEN conjunct2, THEN conjunct2, THEN conjunct1] u ne
    by (auto split: prod.splits option.splits sum.splits)
  from a asc b u c show ?thesis by (intro conjI) simp_all
qed

text \<open>
  Two payloads on which bytes and chunks part ways.  The empty payload is shorter than
  972 bytes, yet the guard \<open>!opts.data\<close> rejects it and no \<open>keysend\<close> is made.  A payload of
  973 bytes in 972 code units, 971 times \<open>a\<close> and one \<open>U+00E9\<close>, is sent with one \<open>keysend\<close>
  call, as chunk 0 of 1, and not as two chunks.
\<close>

theorem keysendMessage_chunking_counterexample:
  "data (example_opts []) = Some []
   \<and> length (utf8 []) < 972
   \<and> keysendMessage example_env (example_opts []) None example_world \<noteq>
       (case keysend example_env (example_opts []) None (perform (Log_info ''keysendMessage'') example_world) of
          (None, w') \<Rightarrow> (None, w')
        | (Some (Inr r), w') \<Rightarrow> (Some (Inr (Some r)), w')
        | (Some (Inl x), w') \<Rightarrow> (Some (Inl x), w'))
   \<and> fst (keysendMessage example_env (example_opts []) None example_world) = Some (Inl (Msg ''string plz''))
   \<and> keysend_calls (effects (snd (keysendMessage example_env (example_opts []) None example_world))) = 0
   \<and> length (utf8 (replicate 971 (CHR ''a'') @ [CHR 0xE9])) = 973
   \<and> length (replicate 971 (CHR ''a'') @ [CHR 0xE9]) = 972
   \<and> ceil_div (length (replicate 971 (CHR ''a'') @ [CHR 0xE9])) MAX_MSG_LENGTH = 1
   \<and> keysend_calls (effects (snd (keysendMessage example_env
                                    (example_opts (replicate 971 (CHR ''a'') @ [CHR 0xE9])) None example_world))) = 1"
proof -
  have e: "data (example_opts []) = Some []
   \<and> length (utf8 []) < 972
   \<and> keysendMessage example_env (example_opts []) None example_world \<noteq>
       (case keysend example_env (example_opts []) None (perform (Log_info ''keysendMessage'') example_world) of
          (None, w') \<Rightarrow> (None, w')
        | (Some (Inr r), w') \<Rightarrow> (Some (Inr (Some r)), w')
        | (Some (Inl x), w') \<Rightarrow> (Some (Inl x), w'))
   \<and> fst (keysendMessage example_env (example_opts []) None example_world) = Some (Inl (Msg ''string plz''))
   \<and> keysend_calls (effects (snd (keysendMessage example_env (example_opts []) None example_world))) = 0"
    by (simp add: keysendMessage_def example_defs keysend_eval keysend_calls_def utf8_def)
  have d: "data (example_opts (replicate 971 (CHR ''a'') @ [CHR 0xE9])) = Some (replicate 971 (CHR ''a'') @ [CHR 0xE9])"
    by (simp add: example_opts_def)
  have l: "length (utf8 (replicate 971 (CHR ''a'') @ [CHR 0xE9])) = 973"
    "length (replicate 971 (CHR ''a'') @ [CHR 0xE9]) = 972"
    "ceil_div (length (replicate 971 (CHR ''a'') @ [CHR 0xE9])) MAX_MSG_LENGTH = 1"
    by (simp_all add: utf8_length ceil_div_def MAX_MSG_LENGTH_def)
  have z: "keysend_calls (effects example_world) = 0"
    by (simp add: example_world_def keysend_calls_def)
  have c: "keysend_calls (effects (snd (keysendMessage example_env
                                    (example_opts (replicate 971 (CHR ''a'') @ [CHR 0xE9])) None example_world))) = 1"
    using keysendMessage_one_call [OF d, of example_env None example_world] z by simp
  from e l c show ?thesis by (intro conjI) simp_all
qed

theorem weave_aggregate_result_witness:
  "data (example_opts (replicate 973 (CHR ''a''))) = Some (replicate 973 (CHR ''a''))
   \<and> MAX_MSG_LENGTH \<le> length (replicate 973 (CHR ''a''))
   \<and> chunk_results example_env (example_opts (replicate 973 (CHR ''a''))) None (replicate 973 (CHR ''a''))
        (clock_ms example_world) 2 0 (perform (Log_info ''keysendMessage'') example_world)
      = [Some (Inl (Upstream (Some ''no route''))),
         Some (Inr (Send_response \<lparr>sr_payment_error = [], sr_payment_preimage = [],
                                   sr_payment_hash = replicate 32 0\<rparr>))]
   \<and> fst (keysendMessage example_env (example_opts (replicate 973 (CHR ''a''))) None example_world)
      = Some (Inl (Msg ''fail''))
   \<and> keysend_calls (effects (snd (keysendMessage example_env (example_opts (replicate 973 (CHR ''a'')))
                                    None example_world))) = 2
   \<and> fst (keysendMessage example_env (example_opts (replicate 972 (CHR ''a''))) None example_world)
      = Some (Inr (Some (Send_response \<lparr>sr_payment_error = [], sr_payment_preimage = [],
                                         sr_payment_hash = replicate 32 0\<rparr>)))"
  using weave_aggregate_result [of "example_opts (replicate 973 (CHR ''a''))" "replicate 973 (CHR ''a'')" 2
      "chunk_results example_env (example_opts (replicate 973 (CHR ''a''))) None (replicate 973 (CHR ''a''))
        (clock_ms example_world) 2 0 (perform (Log_info ''keysendMessage'') example_world)"
      example_env None example_world]
    weave_aggregate_result [of "example_opts (replicate 972 (CHR ''a''))" "replicate 972 (CHR ''a'')" 1
      "chunk_results example_env (example_opts (replicate 972 (CHR ''a''))) None (replicate 972 (CHR ''a''))
        (clock_ms example_world) 1 0 (perform (Log_info ''keysendMessage'') example_world)"
      example_env None example_world]
  by (simp add: example_defs keysend_eval weave_eval last_response_def)

text \<open>
  Claim C6.  When the destination string does not have 66 code units, \<open>keysend\<close> is
  rejected with \<open>keysend: invalid pubkey\<close> and has done nothing but write its log line: no
  random bytes are drawn, no client is resolved (the cached client is the one it was) and
  no request reaches a node.  When it has 66 code units the validation is passed: the
  call goes on to draw the preimage.
\<close>

theorem keysend_validates_destination:
  "(length (dest opts) \<noteq> 66 \<longrightarrow>
      keysend e opts ow w = (Some (Inl (Msg ''keysend: invalid pubkey'')), perform (Log_info ''keysend'') w)
      \<and> lightningClient (snd (keysend e opts ow w)) = lightningClient w
      \<and> routerClient (snd (keysend e opts ow w)) = routerClient w
      \<and> effects (snd (keysend e opts ow w)) = effects w @ [Log_info ''keysend''])
   \<and> (length (dest opts) = 66 \<longrightarrow>
      (\<exists>es. effects (snd (keysend e opts ow w)) = effects w @ Log_info ''keysend'' # Random_bytes 32 # es))"
proof (intro conjI impI)
  assume bad: "length (dest opts) \<noteq> 66"
  then show k: "keysend e opts ow w =
      (Some (Inl (Msg ''keysend: invalid pubkey'')), perform (Log_info ''keysend'') w)"
    by (rule keysend_invalid)
  show "lightningClient (snd (keysend e opts ow w)) = lightningClient w"
    by (simp add: k perform_def)
  show "routerClient (snd (keysend e opts ow w)) = routerClient w"
    by (simp add: k perform_def)
  show "effects (snd (keysend e opts ow w)) = effects w @ [Log_info ''keysend'']"
    by (simp add: k perform_def)
next
  assume good: "length (dest opts) = 66"
  obtain es where es: "effects (snd (keysend e opts ow w)) = effects w @ Log_info ''keysend'' # es"
    and t: "length (dest opts) = 66 \<longrightarrow> take 1 es = [Random_bytes 32]"
    using keysend_effects [of e opts ow w] by blast
  from t good obtain es' where "es = Random_bytes 32 # es'"
    by (cases es) auto
  with es show "\<exists>es. effects (snd (keysend e opts ow w)) = effects w @ Log_info ''keysend'' # Random_bytes 32 # es"
    by blast
qed

theorem keysend_validates_destination_witness:
  "length (dest ((example_opts ''hello'')\<lparr>dest := ''02abc''\<rparr>)) \<noteq> 66
   \<and> keysend example_env ((example_opts ''hello'')\<lparr>dest := ''02abc''\<rparr>) None example_world
       = (Some (Inl (Msg ''keysend: invalid pubkey'')), example_world\<lparr>effects := [Log_info ''keysend'']\<rparr>)
   \<and> length (dest (example_opts ''hello'')) = 66
   \<and> (\<exists>es. effects (snd (keysend example_env (example_opts ''hello'') None example_world))
             = Log_info ''keysend'' # Random_bytes 32 # es)"
  using keysend_validates_destination [of "(example_opts ''hello'')\<lparr>dest := ''02abc''\<rparr>" example_env None example_world]
    keysend_validates_destination [of "example_opts ''hello''" example_env None example_world]
  by (simp add: example_opts_def example_world_def perform_def)

section \<open>Properties of the paginated history\<close>

lemma paginate_follow:
  assumes "follow_pages lightning i ps = Some j"
    and "paginateInvoices lightning 40 j = Some tl_items"
  shows "paginateInvoices lightning 40 i = Some (concat (map snd ps) @ tl_items)"
  using assms
proof (induction ps arbitrary: i)
  case Nil
  then show ?case by simp
next
  case (Cons p ps)
  obtain s items where p: "p = (s, items)" by (cases p)
  from Cons.prems(1) p obtain off where
    pg: "listInvoicesPaginated lightning 40 i = Some (Inr \<lparr>first_index_offset = s, invoices = items\<rparr>)"
    and off: "parseInt s = Some off" "0 < off"
    and rest: "follow_pages lightning off ps = Some j"
    by (auto split: if_splits option.splits)
  have "paginateInvoices lightning 40 off = Some (concat (map snd ps) @ tl_items)"
    using Cons.IH [OF rest Cons.prems(2)] .
  then show ?case
    by (subst paginateInvoices.simps) (simp add: pg off p)
qed

lemma paginate_last_page:
  assumes "listInvoicesPaginated lightning 40 j = Some (Inr \<lparr>first_index_offset = s, invoices = items\<rparr>)"
    and "\<not> (\<exists>off. parseInt s = Some off \<and> 0 < off)"
  shows "paginateInvoices lightning 40 j = Some items"
  using assms by (subst paginateInvoices.simps) (auto split: option.splits)

lemma paginate_error:
  assumes "listInvoicesPaginated lightning 40 j = Some (Inl x)"
  shows "paginateInvoices lightning 40 j = Some []"
  using assms by (subst paginateInvoices.simps) simp

text \<open>
  Claim C3.  \<open>listAllInvoices\<close> asks for pages of 40 and follows the offsets returned.
  When the requests, from offset 0 on, are answered with the pages \<open>ps\<close>, each returning a
  positive offset, and the request at the offset then reached is answered with a page
  whose offset is not positive, the result is the items of all these pages in the order
  of the requests.  When that request fails instead, the result is the items of the pages
  \<open>ps\<close> read before it, and no error is passed on.
\<close>

theorem listAllInvoices_pages:
  assumes "follow_pages lightning 0 ps = Some j"
  shows "(listInvoicesPaginated lightning 40 j = Some (Inr \<lparr>first_index_offset = s, invoices = items\<rparr>)
            \<and> \<not> (\<exists>off. parseInt s = Some off \<and> 0 < off)
          \<longrightarrow> listAllInvoices lightning = Some (concat (map snd ps) @ items))
       \<and> (listInvoicesPaginated lightning 40 j = Some (Inl x)
          \<longrightarrow> listAllInvoices lightning = Some (concat (map snd ps)))"
  using paginate_follow [OF assms] paginate_last_page [of lightning j s items] paginate_error [of lightning j x]
  by (auto simp add: listAllInvoices_def)

lemmas page_eval = listInvoicesPaginated_def parseInt_def is_ws_def digitval_def hexval_def Let_def

theorem listAllInvoices_pages_witness:
  "follow_pages example_invoices 0 [(''40'', [1..<41])] = Some 40
   \<and> listAllInvoices example_invoices = Some ([1..<41] @ [41..<53])
   \<and> map_option length (listAllInvoices example_invoices) = Some 52
   \<and> follow_pages example_invoices_failing 0 [(''40'', [1..<41])] = Some 40
   \<and> listAllInvoices example_invoices_failing = Some [1..<41]
   \<and> map_option length (listAllInvoices example_invoices_failing) = Some 40"
  using listAllInvoices_pages [of example_invoices "[(''40'', [1..<41])]" 40 "''0''" "[41..<53]" "Upstream None"]
    listAllInvoices_pages [of example_invoices_failing "[(''40'', [1..<41])]" 40 "''0''" "[]"
      "Upstream (Some ''unavailable'')"]
  by (simp add: example_invoices_def example_invoices_failing_def page_eval)

section \<open>Properties of the wallet lock and of the client cache\<close>

lemma run_lock_snoc:
  "run_lock (calls @ [(t, v)]) s = setLock v t (run_timers t (run_lock calls s))"
  by (induction calls arbitrary: s) auto

text \<open>
  Claim C8.  Right after a \<open>setLock\<close> call \<open>getLock\<close> returns the value that was set.  Once
  the event loop has reached a time two minutes (120000 ms) after the most recent
  \<open>setLock\<close> call, the timer of that call has run and \<open>getLock\<close> returns false, whatever
  was set and whatever calls came before; until then the value set is still read.
\<close>

theorem wallet_lock_expires:
  "getLock (setLock v t s) = v
   \<and> (calls \<noteq> [] \<longrightarrow> getLock (run_lock calls s) = snd (last calls))
   \<and> (calls \<noteq> [] \<and> fst (last calls) + 120000 \<le> T \<longrightarrow> getLock (run_timers T (run_lock calls s)) = False)
   \<and> (calls \<noteq> [] \<and> T < fst (last calls) + 120000 \<longrightarrow>
        getLock (run_timers T (run_lock calls s)) = snd (last calls))"
proof -
  have a: "getLock (setLock v t s) = v" for v t s
    by (simp add: getLock_def setLock_def)
  have b: "getLock (run_timers T (setLock v t s)) = (if t + 120000 \<le> T then False else v)" for v t s T
    by (simp add: getLock_def setLock_def run_timers_def)
  have c: "calls \<noteq> [] \<Longrightarrow> run_lock calls s
      = setLock (snd (last calls)) (fst (last calls)) (run_timers (fst (last calls)) (run_lock (butlast calls) s))"
    using run_lock_snoc [of "butlast calls" "fst (last calls)" "snd (last calls)" s] by simp
  show ?thesis
    using a b c by (auto simp del: run_lock.simps)
qed

theorem wallet_lock_expires_witness:
  "getLock (setLock True 5000 lock_init) = True
   \<and> getLock (run_lock [(0, True), (60000, True)] lock_init) = True
   \<and> getLock (run_timers 180000 (run_lock [(0, True), (60000, True)] lock_init)) = False
   \<and> getLock (run_timers 179999 (run_lock [(0, True), (60000, True)] lock_init)) = True"
  using wallet_lock_expires [of True 5000 lock_init "[(0, True), (60000, True)]" 180000]
    wallet_lock_expires [of True 5000 lock_init "[(0, True), (60000, True)]" 179999]
  by simp

lemma loadLightning_cached:
  "\<not> (tp \<and> isProxy e None \<and> truthy ow) \<Longrightarrow> lightningClient w = Some c \<Longrightarrow>
   loadLightning e tp ow False w = (Inr c, w)"
  by (auto simp add: loadLightning_def)

lemma loadLightning_calls_cached:
  "list_all (\<lambda>(tp, ow, nc). \<not> tp \<and> \<not> nc) calls \<Longrightarrow> lightningClient w = Some c \<Longrightarrow>
   loadLightning_calls e calls w = (map (\<lambda>call. Inr c) calls, w)"
  by (induction calls) (auto simp add: loadLightning_cached)

text \<open>
  Claim C10.  A \<open>loadLightning\<close> call that takes the proxy path and obtains a client stores
  that client in the one module-level variable \<open>lightningClient\<close>.  Every later call that
  gives no proxy hint and does not bypass the cache then returns that proxy client, and
  the client of the configured backend is not built.
\<close>

theorem loadLightning_proxy_overwrites_cache:
  assumes "isProxy e None" and "ownerPubkey = Some p" and "p \<noteq> []"
    and "loadProxyLightning e p = Inr (Some c)"
  shows "loadLightning e True ownerPubkey noCache w = (Inr c, w\<lparr>lightningClient := Some c\<rparr>)
       \<and> loadLightning e False ow False (snd (loadLightning e True ownerPubkey noCache w))
           = (Inr c, w\<lparr>lightningClient := Some c\<rparr>)
       \<and> (list_all (\<lambda>(tp, ow, nc). \<not> tp \<and> \<not> nc) calls \<longrightarrow>
            loadLightning_calls e calls (snd (loadLightning e True ownerPubkey noCache w))
              = (map (\<lambda>call. Inr c) calls, w\<lparr>lightningClient := Some c\<rparr>))"
proof -
  have first: "loadLightning e True ownerPubkey noCache w = (Inr c, w\<lparr>lightningClient := Some c\<rparr>)"
    using assms by (simp add: loadLightning_def truthy_def)
  have second: "loadLightning e False ow False (w\<lparr>lightningClient := Some c\<rparr>) = (Inr c, w\<lparr>lightningClient := Some c\<rparr>)"
    by (rule loadLightning_cached) simp_all
  have later: "list_all (\<lambda>(tp, ow, nc). \<not> tp \<and> \<not> nc) calls \<Longrightarrow>
      loadLightning_calls e calls (w\<lparr>lightningClient := Some c\<rparr>)
        = (map (\<lambda>call. Inr c) calls, w\<lparr>lightningClient := Some c\<rparr>)"
    by (rule loadLightning_calls_cached) simp_all
  show ?thesis using first second later by simp
qed

theorem loadLightning_proxy_overwrites_cache_witness:
  "isProxy example_proxy_env None
   \<and> loadProxyLightning example_proxy_env ''02aa'' = Inr (Some (Proxy_Lightning ''02aa''))
   \<and> loadLightning example_proxy_env True (Some ''02aa'') False example_world
     = (Inr (Proxy_Lightning ''02aa''), example_world\<lparr>lightningClient := Some (Proxy_Lightning ''02aa'')\<rparr>)
   \<and> loadLightning example_proxy_env False None False
        (snd (loadLightning example_proxy_env True (Some ''02aa'') False example_world))
     = (Inr (Proxy_Lightning ''02aa''), example_world\<lparr>lightningClient := Some (Proxy_Lightning ''02aa'')\<rparr>)
   \<and> loadLightning_calls example_proxy_env [(False, None, False), (False, Some ''03bb'', False)]
        (snd (loadLightning example_proxy_env True (Some ''02aa'') False example_world))
     = (map (\<lambda>call. Inr (Proxy_Lightning ''02aa'')) [(False, None, False), (False, Some ''03bb'', False)],
        example_world\<lparr>lightningClient := Some (Proxy_Lightning ''02aa'')\<rparr>)"
proof -
  have a: "isProxy example_proxy_env None"
    by (simp add: example_proxy_env_def)
  have b: "loadProxyLightning example_proxy_env ''02aa'' = Inr (Some (Proxy_Lightning ''02aa''))"
    by (simp add: example_proxy_env_def)
  have ne: "''02aa'' \<noteq> []" by simp
  have l: "list_all (\<lambda>(tp, ow, nc). \<not> tp \<and> \<not> nc) [(False, None, False), (False, Some ''03bb'', False)]"
    by simp
  from loadLightning_proxy_overwrites_cache [OF a refl ne b, of False example_world None
      "[(False, None, False), (False, Some ''03bb'', False)]"] l a b
  show ?thesis by blast
qed

lemma example_static_client:
  "fst (loadLightning example_proxy_env False None False example_world) = Inr (Greenlight_Node ''localhost:2601'')"
  by (simp add: example_proxy_env_def example_env_def example_world_def loadLightning_def IS_GREENLIGHT_def
      truthy_def split_js_def nth_truthy_def)

text \<open>
  Claim C9.  With the remote-signer backend, \<open>verifyMessage\<close> never resolves with
  \<open>valid\<close> false.  Once the client is obtained, the signature decodes to a recovery-id byte
  followed by the signature bytes, and the key recovery returns a key, it resolves with
  \<open>valid\<close> true and that key in hex, whichever key it is: no key is compared with any
  expected signer.
\<close>

theorem verifyMessage_greenlight_valid:
  assumes "IS_GREENLIGHT e"
  shows "(\<forall>r. fst (verifyMessage e msg sig ow w) = Some (Inr r) \<longrightarrow> valid r)
       \<and> (loadLightning e True ow False (perform (Log_info ''verifyMessage'') w) = (Inr c, w1)
          \<and> zbase32_decode e sig = Inr (b # sigBytes)
          \<and> secp256k1_recover_key e
               (sha256 e (sha256 e (concat_to [signed_message_prefix, from_hex msg]
                                      (length (from_hex msg) + length signed_message_prefix))))
               sigBytes (int (unat b) - 31) True = Inr recovered
          \<longrightarrow> verifyMessage e msg sig ow w = (Some (Inr \<lparr>valid = True, pubkey = to_hex recovered\<rparr>), w1))"
proof (intro conjI allI impI)
  fix r
  assume "fst (verifyMessage e msg sig ow w) = Some (Inr r)"
  with assms show "valid r"
    by (auto simp add: verifyMessage_def Let_def split: prod.splits sum.splits list.splits)
next
  assume "loadLightning e True ow False (perform (Log_info ''verifyMessage'') w) = (Inr c, w1)
          \<and> zbase32_decode e sig = Inr (b # sigBytes)
          \<and> secp256k1_recover_key e
               (sha256 e (sha256 e (concat_to [signed_message_prefix, from_hex msg]
                                      (length (from_hex msg) + length signed_message_prefix))))
               sigBytes (int (unat b) - 31) True = Inr recovered"
  with assms show "verifyMessage e msg sig ow w = (Some (Inr \<lparr>valid = True, pubkey = to_hex recovered\<rparr>), w1)"
    by (simp add: verifyMessage_def Let_def)
qed

theorem verifyMessage_greenlight_valid_witness:
  "IS_GREENLIGHT example_env
   \<and> fst (verifyMessage example_env ''6869'' ''58616263'' None example_world)
       = Some (Inr \<lparr>valid = True, pubkey = ''616263''\<rparr>)"
  using verifyMessage_greenlight_valid [of example_env "''6869''" "''58616263''" None example_world
      "Greenlight_Node ''localhost:2601''"
      "example_world\<lparr>lightningClient := Some (Greenlight_Node ''localhost:2601''),
                      effects := [Log_info ''verifyMessage'']\<rparr>"
      "0x58" "[0x61, 0x62, 0x63]" "[0x61, 0x62, 0x63]"]
  by (simp add: example_env_def example_world_def loadLightning_def IS_GREENLIGHT_def perform_def
      truthy_def split_js_def nth_truthy_def hexval_def to_hex_def hexdigit_def)

section \<open>Properties of the tokens\<close>

lemma from_hex_empty: "lower_hex s \<Longrightarrow> even (length s) \<Longrightarrow> from_hex s = [] \<longleftrightarrow> s = []"
  using to_hex_from_hex [of s] by (auto simp add: to_hex_def)

text \<open>A token that \<open>tokenFromTerms\<close> resolves with is the five fields of \<open>startLDAT\<close>, for the
  host of the terms or else the configured one and for the expiry computed from the
  clock, followed by the signature field when the pubkey is not empty.\<close>

lemma token_shape:
  assumes "tokenFromTerms e t w = (Some (Inr token), w')"
  shows "\<exists>pk sigBytes. t_pubkey t = Some pk
      \<and> token = terms (startLDAT (if t_host t \<noteq> [] then t_host t else media_host e) (t_muid t)
                          (urlBase64 (from_hex pk)) (expiry (clock_ms w) (t_ttl t)) (t_meta t))
                @ (if pk = [] then [] else ''.'' @ urlBase64 sigBytes)"
proof (cases "t_pubkey t")
  case None
  with assms show ?thesis by (simp add: tokenFromTerms_def)
next
  case (Some pk)
  define ldat where "ldat = startLDAT (if t_host t \<noteq> [] then t_host t else media_host e) (t_muid t)
      (urlBase64 (from_hex pk)) (expiry (clock_ms w) (t_ttl t)) (t_meta t)"
  show ?thesis
  proof (cases "pk = []")
    case True
    have "tokenFromTerms e t w = (Some (Inr (terms ldat)), w)"
      using True Some by (simp add: tokenFromTerms_def Let_def urlBase64FromBytes_def ldat_def)
    with assms have "token = terms ldat" by simp
    then show ?thesis using True Some by (simp add: ldat_def)
  next
    case False
    obtain p w1 where sb: "signBuffer e (bytes ldat) (t_ownerPubkey t) w = (p, w1)"
      by (cases "signBuffer e (bytes ldat) (t_ownerPubkey t) w")
    have tk: "tokenFromTerms e t w =
        (case p of
           None \<Rightarrow> (None, w1)
         | Some (Inl x) \<Rightarrow> (Some (Inl x), perform (Log_error x) w1)
         | Some (Inr sig) \<Rightarrow>
             (case zbase32_decode e sig of
                Inl x \<Rightarrow> (Some (Inl x), perform (Log_error x) w1)
              | Inr sigBytes \<Rightarrow> (Some (Inr (terms ldat @ ''.'' @ urlBase64 sigBytes)), w1)))"
      using False Some sb
      by (simp add: tokenFromTerms_def Let_def urlBase64FromBytes_def ldat_def
          split: option.splits sum.splits)
    from assms have tk': "(case p of
           None \<Rightarrow> (None, w1)
         | Some (Inl x) \<Rightarrow> (Some (Inl x), perform (Log_error x) w1)
         | Some (Inr sig) \<Rightarrow>
             (case zbase32_decode e sig of
                Inl x \<Rightarrow> (Some (Inl x), perform (Log_error x) w1)
              | Inr sigBytes \<Rightarrow> (Some (Inr (terms ldat @ ''.'' @ urlBase64 sigBytes)), w1)))
          = (Some (Inr token), w')"
      by (simp only: tk)
    have "\<exists>sigBytes. token = terms ldat @ ''.'' @ urlBase64 sigBytes"
    proof (cases p)
      case None
      with tk' show ?thesis by simp
    next
      case (Some q)
      show ?thesis
      proof (cases q)
        case (Inl x)
        with Some tk' show ?thesis by simp
      next
        case (Inr sig)
        show ?thesis
        proof (cases "zbase32_decode e sig")
          case (Inl x)
          with Some \<open>q = Inr sig\<close> tk' show ?thesis by simp
        next
          case (Inr sigBytes)
          with Some \<open>q = Inr sig\<close> tk' have "token = terms ldat @ ''.'' @ urlBase64 sigBytes" by simp
          then show ?thesis ..
        qed
      qed
    qed
    then obtain sigBytes where "token = terms ldat @ ''.'' @ urlBase64 sigBytes" ..
    then have "token = terms ldat @ (if pk = [] then [] else ''.'' @ urlBase64 sigBytes)"
      using False by (simp only: if_False)
    then show ?thesis
      using \<open>t_pubkey t = Some pk\<close> unfolding ldat_def by blast
  qed
qed

text \<open>The fields of such a token, and what \<open>parseLDAT\<close> makes of it.\<close>

lemma token_split:
  fixes host muid pk :: string and exp :: nat and meta :: js_object
  defines "eb \<equiv> (if exp \<noteq> 0 then from_hex (toString16 exp) else [])"
  shows "\<exists>f0 f1 f2 f4 rest.
     split_js ''.'' (terms (startLDAT host muid pk exp meta) @ (if u then [] else ''.'' @ urlBase64 sigBytes))
       = f0 # f1 # f2 # urlBase64 eb # f4 # rest"
proof (cases u)
  case True
  show ?thesis
    using split_five [OF urlBase64_no_dot urlBase64_no_dot urlBase64_no_dot urlBase64_no_dot urlBase64_no_dot]
    by (simp add: True read_fields(6) eb_def del: split_js_def)
next
  case False
  show ?thesis
    using split_six [OF urlBase64_no_dot urlBase64_no_dot urlBase64_no_dot urlBase64_no_dot urlBase64_no_dot
        urlBase64_no_dot]
    by (simp add: False read_fields(6) eb_def del: split_js_def)
qed


lemma parse_ts_expiry:
  assumes "even (length (toString16 exp))" and "exact_integer (int exp)"
  shows "parse_ts (from_hex (toString16 exp)) = Returns (Some (int exp))"
    and "from_hex (toString16 exp) \<noteq> []"
proof -
  have h: "to_hex (from_hex (toString16 exp)) = toString16 exp"
    using assms(1) toString16_lower_hex [of exp] by (rule to_hex_from_hex [rotated])
  show "parse_ts (from_hex (toString16 exp)) = Returns (Some (int exp))"
    using assms(2) parseInt_hex [of exp] by (simp add: parse_ts_def h number_of_def)
  show "from_hex (toString16 exp) \<noteq> []"
    using assms(1) toString16_lower_hex [of exp] toString16_nonempty [of exp]
    by (simp add: from_hex_empty)
qed

lemma expiry_independent:
  assumes "ttl1 \<noteq> None \<and> ttl1 \<noteq> Some 0" and "ttl2 \<noteq> None \<and> ttl2 \<noteq> Some 0"
  shows "tokenFromTerms e (t\<lparr>t_ttl := ttl1\<rparr>) w = tokenFromTerms e (t\<lparr>t_ttl := ttl2\<rparr>) w"
proof -
  have x: "expiry (clock_ms w) ttl1 = expiry (clock_ms w) ttl2"
    using assms by (simp add: expiry_def)
  show ?thesis
  proof (cases "t_pubkey t")
    case None
    then show ?thesis by (simp add: tokenFromTerms_def)
  next
    case (Some a)
    show ?thesis
    proof (cases "a = []")
      case True
      with Some x show ?thesis by (simp add: tokenFromTerms_def Let_def)
    next
      case False
      with Some x show ?thesis
        by (simp add: tokenFromTerms_def Let_def split: prod.splits option.splits sum.splits)
    qed
  qed
qed

text \<open>
  Claim C5.  Take a token that \<open>tokenFromTerms\<close> resolves with, and let \<open>year\<close> be the time
  now in whole seconds plus \<open>365 * 24 * 3600\<close>.  When the \<open>ttl\<close> of the terms is zero or
  null, the expiry is 0 and the expiry field of the token, its fourth, is empty, which is
  how the expiry 0 is written; the decoder of \<open>ts\<close> finds nothing.  When the \<open>ttl\<close> is any
  other number, the expiry is \<open>year\<close>, the expiry field is \<open>year\<close> in bytes, written in
  URL-safe base64, and the decoder of \<open>ts\<close> reads \<open>year\<close> from it (for a \<open>year\<close> with an
  even number of hex digits, as every time from 1978 to 2105 gives); the value of the
  \<open>ttl\<close> plays no other part, as any other \<open>ttl\<close> that is not zero gives the same outcome.
\<close>

theorem token_expiry_one_year:
  assumes "tokenFromTerms e t w = (Some (Inr token), w')"
    and "year = clock_ms w div 1000 + 365 * 24 * 3600"
  shows "(t_ttl t = None \<or> t_ttl t = Some 0 \<longrightarrow>
            expiry (clock_ms w) (t_ttl t) = 0
            \<and> split_js ''.'' token ! 3 = []
            \<and> decode_field (split_js ''.'' token) 3 parse_ts = Returns None)
       \<and> (t_ttl t \<noteq> None \<and> t_ttl t \<noteq> Some 0 \<longrightarrow>
            expiry (clock_ms w) (t_ttl t) = year
            \<and> split_js ''.'' token ! 3 = urlBase64 (from_hex (toString16 year))
            \<and> (even (length (toString16 year)) \<and> exact_integer (int year) \<longrightarrow>
                 decode_field (split_js ''.'' token) 3 parse_ts = Returns (Some (Some (int year))))
            \<and> (ttl' \<noteq> None \<and> ttl' \<noteq> Some 0 \<longrightarrow>
                 tokenFromTerms e (t\<lparr>t_ttl := ttl'\<rparr>) w = tokenFromTerms e t w))"
proof -
  define exp where "exp = expiry (clock_ms w) (t_ttl t)"
  define eb where "eb = (if exp \<noteq> 0 then from_hex (toString16 exp) else [])"
  from token_shape [OF assms(1)] obtain pk sigBytes where
    tok: "token = terms (startLDAT (if t_host t \<noteq> [] then t_host t else media_host e) (t_muid t)
                          (urlBase64 (from_hex pk)) exp (t_meta t))
                @ (if pk = [] then [] else ''.'' @ urlBase64 sigBytes)"
    unfolding exp_def by blast
  from token_split [of "if t_host t \<noteq> [] then t_host t else media_host e" "t_muid t"
      "urlBase64 (from_hex pk)" exp "t_meta t" "pk = []" sigBytes]
  obtain f0 f1 f2 f4 rest where sp: "split_js ''.'' token = f0 # f1 # f2 # urlBase64 eb # f4 # rest"
    unfolding tok eb_def by blast
  have f3: "split_js ''.'' token ! 3 = urlBase64 eb"
    by (simp add: sp numeral_eq_Suc)
  have dec: "decode_field (split_js ''.'' token) 3 parse_ts =
      (if eb = [] then Returns None else js_bind (parse_ts eb) (\<lambda>v. Returns (Some v)))"
    by (simp add: sp decode_field_def nth_truthy_simps numeral_eq_Suc urlBase64_empty from_base64_urlBase64)
  show ?thesis
  proof (intro conjI impI)
    assume z: "t_ttl t = None \<or> t_ttl t = Some 0"
    then have "exp = 0" by (auto simp add: exp_def expiry_def)
    then show "expiry (clock_ms w) (t_ttl t) = 0" by (simp only: exp_def)
    from \<open>exp = 0\<close> have "eb = []" by (simp add: eb_def)
    then show "split_js ''.'' token ! 3 = []"
      and "decode_field (split_js ''.'' token) 3 parse_ts = Returns None"
      by (simp_all add: f3 dec urlBase64_empty)
  next
    assume nz: "t_ttl t \<noteq> None \<and> t_ttl t \<noteq> Some 0"
    then have x: "exp = year" by (simp add: exp_def expiry_def assms(2))
    then show "expiry (clock_ms w) (t_ttl t) = year" by (simp only: exp_def)
    have "year \<noteq> 0" by (simp add: assms(2))
    then have e: "eb = from_hex (toString16 year)" by (simp add: eb_def x)
    show "split_js ''.'' token ! 3 = urlBase64 (from_hex (toString16 year))"
      by (simp only: f3 e)
    {
      assume "even (length (toString16 year)) \<and> exact_integer (int year)"
      then show "decode_field (split_js ''.'' token) 3 parse_ts = Returns (Some (Some (int year)))"
        using parse_ts_expiry [of year] by (simp add: dec e)
    }
    {
      assume "ttl' \<noteq> None \<and> ttl' \<noteq> Some 0"
      then show "tokenFromTerms e (t\<lparr>t_ttl := ttl'\<rparr>) w = tokenFromTerms e t w"
        using expiry_independent [OF _ nz, of ttl' e t w] by simp
    }
  qed
qed

lemma tokenFromTerms_unsigned:
  assumes "t_pubkey t = Some []"
  shows "tokenFromTerms e t w =
     (Some (Inr (terms (startLDAT (if t_host t \<noteq> [] then t_host t else media_host e) (t_muid t) []
                          (expiry (clock_ms w) (t_ttl t)) (t_meta t)))), w)"
  using assms by (simp add: tokenFromTerms_def Let_def urlBase64FromBytes_def urlBase64_def replace_all_def)

lemma tokenFromTerms_signed:
  assumes "t_pubkey t = Some pk" and "pk \<noteq> []"
    and "ldat = startLDAT (if t_host t \<noteq> [] then t_host t else media_host e) (t_muid t)
                  (urlBase64 (from_hex pk)) (expiry (clock_ms w) (t_ttl t)) (t_meta t)"
    and "signBuffer e (bytes ldat) (t_ownerPubkey t) w = (Some (Inr sig), w1)"
    and "zbase32_decode e sig = Inr sigBytes"
  shows "tokenFromTerms e t w = (Some (Inr (terms ldat @ ''.'' @ urlBase64 sigBytes)), w1)"
  using assms by (simp add: tokenFromTerms_def Let_def urlBase64FromBytes_def)

lemma from_hex_zeros: "from_hex (replicate (2 * n) (CHR ''0'')) = replicate n 0"
  by (induction n) (simp_all add: hexval_def)

lemma example_signature:
  "signBuffer example_env msg ow example_world
     = (Some (Inr (to_hex (31 # replicate 64 0))),
        example_world\<lparr>lightningClient := Some (Greenlight_Node ''localhost:2601''),
                        effects := [Log_info ''signBuffer'']\<rparr>)"
proof -
  have z: "from_hex (replicate 134 (CHR ''0'')) = replicate 67 0"
    using from_hex_zeros [of 67] by simp
  show ?thesis
    by (simp add: signBuffer_def example_env_def example_world_def perform_def loadLightning_def
        IS_GREENLIGHT_def truthy_def split_js_def nth_truthy_def z subarray_def concat_to_def Let_def)
qed

lemma example_signed_token:
  assumes "t_pubkey t = Some pk" and "pk \<noteq> []"
  shows "tokenFromTerms example_env t example_world
     = (Some (Inr (terms (startLDAT (if t_host t \<noteq> [] then t_host t else ''memes.sphinx.chat'') (t_muid t)
                            (urlBase64 (from_hex pk)) (expiry 1700000000000 (t_ttl t)) (t_meta t))
                   @ ''.'' @ urlBase64 (31 # replicate 64 0))),
        example_world\<lparr>lightningClient := Some (Greenlight_Node ''localhost:2601''),
                        effects := [Log_info ''signBuffer'']\<rparr>)"
proof -
  have m: "media_host example_env = ''memes.sphinx.chat''" "clock_ms example_world = 1700000000000"
    by (simp_all add: example_env_def example_world_def)
  have z: "zbase32_decode example_env (to_hex (31 # replicate 64 0)) = Inr (31 # replicate 64 0)"
    by (simp add: example_env_def from_hex_to_hex)
  show ?thesis
    using tokenFromTerms_signed [OF assms refl example_signature z] by (simp only: m)
qed

lemma example_unsigned_token:
  assumes "t_pubkey t = Some []"
  shows "tokenFromTerms example_env t example_world
     = (Some (Inr (terms (startLDAT (if t_host t \<noteq> [] then t_host t else ''memes.sphinx.chat'') (t_muid t) []
                            (expiry 1700000000000 (t_ttl t)) (t_meta t)))), example_world)"
proof -
  have m: "media_host example_env = ''memes.sphinx.chat''" "clock_ms example_world = 1700000000000"
    by (simp_all add: example_env_def example_world_def)
  show ?thesis
    using tokenFromTerms_unsigned [OF assms, of example_env example_world] by (simp only: m)
qed

lemma example_expiry_hex: "toString16 1731536000 = ''67352480''"
  by (simp add: toString16.simps hexdigit_def)

lemma example_expiry_field: "urlBase64 (from_hex ''67352480'') = ''ZzUkgA==''"
  by (simp add: hexval_def urlBase64_def replace_all_def b64char_def)

theorem token_expiry_one_year_witness:
  "fst (tokenFromTerms example_env test_terms example_world)
     = Some (Inr (terms (startLDAT ''memes.sphinx.chat'' (t_muid test_terms)
                    (urlBase64 (from_hex ''0373ca36a331d8fd847f190908715a34997b15dc3c5d560ca032cf3412fcf494e4''))
                    1731536000 (t_meta test_terms))
                  @ ''.'' @ urlBase64 (31 # replicate 64 0)))
   \<and> clock_ms example_world div 1000 + 365 * 24 * 3600 = 1731536000
   \<and> t_ttl test_terms = Some 31536000
   \<and> split_js ''.'' (terms (startLDAT ''memes.sphinx.chat'' (t_muid test_terms)
                    (urlBase64 (from_hex ''0373ca36a331d8fd847f190908715a34997b15dc3c5d560ca032cf3412fcf494e4''))
                    1731536000 (t_meta test_terms))
                  @ ''.'' @ urlBase64 (31 # replicate 64 0)) ! 3 = ''ZzUkgA==''
   \<and> decode_field (split_js ''.'' (terms (startLDAT ''memes.sphinx.chat'' (t_muid test_terms)
                    (urlBase64 (from_hex ''0373ca36a331d8fd847f190908715a34997b15dc3c5d560ca032cf3412fcf494e4''))
                    1731536000 (t_meta test_terms))
                  @ ''.'' @ urlBase64 (31 # replicate 64 0))) 3 parse_ts = Returns (Some (Some 1731536000))
   \<and> tokenFromTerms example_env (test_terms\<lparr>t_ttl := Some 60\<rparr>) example_world
       = tokenFromTerms example_env test_terms example_world
   \<and> t_ttl test_terms2 = Some 0
   \<and> fst (tokenFromTerms example_env test_terms2 example_world)
       = Some (Inr (terms (startLDAT ''memes.sphinx.chat'' (t_muid test_terms2) [] 0 (t_meta test_terms2))))
   \<and> split_js ''.'' (terms (startLDAT ''memes.sphinx.chat'' (t_muid test_terms2) [] 0 (t_meta test_terms2))) ! 3 = []
   \<and> decode_field (split_js ''.'' (terms (startLDAT ''memes.sphinx.chat'' (t_muid test_terms2) [] 0
                                          (t_meta test_terms2)))) 3 parse_ts = Returns None"
proof -
  define T where "T = terms (startLDAT ''memes.sphinx.chat'' (t_muid test_terms)
                    (urlBase64 (from_hex ''0373ca36a331d8fd847f190908715a34997b15dc3c5d560ca032cf3412fcf494e4''))
                    1731536000 (t_meta test_terms))
                  @ ''.'' @ urlBase64 (31 # replicate 64 0)"
  define T2 where "T2 = terms (startLDAT ''memes.sphinx.chat'' (t_muid test_terms2) [] 0 (t_meta test_terms2))"
  have p: "t_pubkey test_terms = Some ''0373ca36a331d8fd847f190908715a34997b15dc3c5d560ca032cf3412fcf494e4''"
    "''0373ca36a331d8fd847f190908715a34997b15dc3c5d560ca032cf3412fcf494e4'' \<noteq> []"
    "t_host test_terms = []" "t_ttl test_terms = Some 31536000"
    by (simp_all add: test_terms_def)
  have x: "expiry 1700000000000 (Some 31536000) = 1731536000" "expiry 1700000000000 (Some 0) = 0"
    by (simp_all add: expiry_def)
  have tok: "tokenFromTerms example_env test_terms example_world
     = (Some (Inr T), example_world\<lparr>lightningClient := Some (Greenlight_Node ''localhost:2601''),
                                       effects := [Log_info ''signBuffer'']\<rparr>)"
    using example_signed_token [OF p(1,2)] by (simp only: p(3,4) x if_False simp_thms T_def)
  have q: "t_pubkey test_terms2 = Some []" "t_host test_terms2 = []" "t_ttl test_terms2 = Some 0"
    by (simp_all add: test_terms2_def)
  have tok2: "tokenFromTerms example_env test_terms2 example_world = (Some (Inr T2), example_world)"
    using example_unsigned_token [OF q(1)] by (simp only: q(2,3) x if_False simp_thms T2_def)
  have y: "clock_ms example_world div 1000 + 365 * 24 * 3600 = 1731536000"
    by (simp add: example_world_def)
  have ev: "even (length (toString16 1731536000)) \<and> exact_integer (int 1731536000)"
    by (simp add: example_expiry_hex exact_integer_def)
  have f: "urlBase64 (from_hex (toString16 1731536000)) = ''ZzUkgA==''"
    by (simp only: example_expiry_hex example_expiry_field)
  have nz: "t_ttl test_terms \<noteq> None \<and> t_ttl test_terms \<noteq> Some 0" "Some (60 :: int) \<noteq> None \<and> Some (60 :: int) \<noteq> Some 0"
    by (simp_all add: p(4))
  have z: "t_ttl test_terms2 = None \<or> t_ttl test_terms2 = Some 0"
    by (simp add: q(3))
  from token_expiry_one_year [OF tok y [symmetric], of "Some 60"] nz ev
  have c: "split_js ''.'' T ! 3 = urlBase64 (from_hex (toString16 1731536000))"
    "decode_field (split_js ''.'' T) 3 parse_ts = Returns (Some (Some (int 1731536000)))"
    "tokenFromTerms example_env (test_terms\<lparr>t_ttl := Some 60\<rparr>) example_world
       = tokenFromTerms example_env test_terms example_world"
    by blast+
  from token_expiry_one_year [OF tok2 y [symmetric], of "Some 60"] z
  have c2: "split_js ''.'' T2 ! 3 = []" "decode_field (split_js ''.'' T2) 3 parse_ts = Returns None"
    by blast+
  have c': "split_js ''.'' T ! 3 = ''ZzUkgA==''"
    "decode_field (split_js ''.'' T) 3 parse_ts = Returns (Some (Some 1731536000))"
    using c(1,2) by (simp_all only: f of_nat_numeral)
  have t: "fst (tokenFromTerms example_env test_terms example_world) = Some (Inr T)"
    "fst (tokenFromTerms example_env test_terms2 example_world) = Some (Inr T2)"
    by (simp_all only: tok tok2 fst_conv)
  show ?thesis
    unfolding T_def [symmetric] T2_def [symmetric]
    by (intro conjI) (fact t y p(4) c' c(3) q(3) c2)+
qed
















end
